theory Spec2Isabelle
  imports Complex_Main "HOL-Library.Word" "HOL-Library.Sublist"
begin

unbundle bit_operations_syntax

section \<open>Bytes, slices and the library functions the server calls\<close>

text \<open>
  The server (\<^verbatim>\<open>PyRand/entropy_server.py\<close>) works on Python \<^verbatim>\<open>bytes\<close> and
  \<^verbatim>\<open>bytearray\<close> values: lists of 8-bit words here. Sizes are Python integers
  (\<open>int\<close>), since a request may carry a zero or negative size.
\<close>

type_synonym byte = "8 word"
type_synonym bytes = "byte list"

text \<open>
  Python slices \<^verbatim>\<open>xs[:n]\<close> and \<^verbatim>\<open>xs[n:]\<close>: a negative bound counts from the
  end, and every bound is clamped to the sequence.
\<close>

definition py_take :: "int \<Rightarrow> 'a list \<Rightarrow> 'a list" where
  "py_take n xs = (if 0 \<le> n then take (nat n) xs else take (length xs - nat (- n)) xs)"

definition py_drop :: "int \<Rightarrow> 'a list \<Rightarrow> 'a list" where
  "py_drop n xs = (if 0 \<le> n then drop (nat n) xs else drop (length xs - nat (- n)) xs)"

text \<open>\<^verbatim>\<open>xs[a:b]\<close> for bounds \<open>0 \<le> a\<close>, \<open>0 \<le> b\<close> (the only use in the source).\<close>

definition py_slice :: "nat \<Rightarrow> nat \<Rightarrow> 'a list \<Rightarrow> 'a list" where
  "py_slice a b xs = take (b - a) (drop a xs)"

text \<open>\<^verbatim>\<open>xs * n\<close> on a bytes value: \<open>n\<close> copies, none when \<open>n \<le> 0\<close>.\<close>

definition py_repeat :: "'a list \<Rightarrow> int \<Rightarrow> 'a list" where
  "py_repeat xs n = concat (replicate (nat n) xs)"

text \<open>
  \<^verbatim>\<open>hashlib.sha256(data).digest()\<close> and \<^verbatim>\<open>hashlib.sha512(data).digest()\<close> are
  library functions. All the server relies on is that a digest is a function of the data
  with 32 (64) bytes. The model takes the digest functions as parameters and fixes the
  length: every function with 32-byte results is \<open>sha256 H\<close> for some \<open>H\<close>.
\<close>

type_synonym digest_fn = "bytes \<Rightarrow> bytes"

definition sha256 :: "digest_fn \<Rightarrow> bytes \<Rightarrow> bytes" where
  "sha256 H data = take 32 (H data @ replicate 32 0)"

definition sha512 :: "digest_fn \<Rightarrow> bytes \<Rightarrow> bytes" where
  "sha512 H data = take 64 (H data @ replicate 64 0)"

text \<open>\<^verbatim>\<open>bytes.hex()\<close>: two lower-case hexadecimal digits per byte.\<close>

definition hex_digit :: "nat \<Rightarrow> char" where
  "hex_digit d = (if d < 10 then char_of (48 + d) else char_of (87 + d))"

definition hex :: "bytes \<Rightarrow> string" where
  "hex bs = concat (map (\<lambda>b. [hex_digit (unat b div 16), hex_digit (unat b mod 16)]) bs)"

text \<open>
  \<^verbatim>\<open>bytes.fromhex(s)\<close>: ASCII whitespace between bytes is skipped, every byte is two
  adjacent hexadecimal digits; anything else raises ValueError (\<open>None\<close>).
\<close>

definition is_space :: "char \<Rightarrow> bool" where
  "is_space c = (of_char c \<in> {9, 10, 11, 12, 13, 32 :: nat})"

definition hex_value :: "char \<Rightarrow> nat option" where
  "hex_value c =
     (let k = (of_char c :: nat) in
      if 48 \<le> k \<and> k \<le> 57 then Some (k - 48)
      else if 97 \<le> k \<and> k \<le> 102 then Some (k - 87)
      else if 65 \<le> k \<and> k \<le> 70 then Some (k - 55)
      else None)"

fun fromhex :: "string \<Rightarrow> bytes option" where
  "fromhex [] = Some []"
| "fromhex [c] = (if is_space c then Some [] else None)"
| "fromhex (c # d # cs) =
     (if is_space c then fromhex (d # cs)
      else (case (hex_value c, hex_value d) of
              (Some h, Some l) \<Rightarrow>
                (case fromhex cs of None \<Rightarrow> None
                 | Some bs \<Rightarrow> Some (of_nat (16 * h + l) # bs))
            | _ \<Rightarrow> None))"

section \<open>Condensing a collector's output (process\_video, lines 236-252)\<close>

text \<open>
  The loop of lines 242-247: chunk \<open>i\<close> is \<^verbatim>\<open>entropy_bytes[i*chunk_size : min(i*chunk_size
  + chunk_size, len)]\<close>, and its SHA-256 digest is appended.
\<close>

definition chunk_size :: nat where
  "chunk_size = 1024 * 10"

definition num_chunks :: "bytes \<Rightarrow> nat" where
  "num_chunks entropy_bytes =
     length entropy_bytes div chunk_size + (if length entropy_bytes mod chunk_size \<noteq> 0 then 1 else 0)"

definition hash_chunks :: "digest_fn \<Rightarrow> bytes \<Rightarrow> bytes" where
  "hash_chunks H entropy_bytes =
     foldl (\<lambda>hashed_data i.
              let start_idx = i * chunk_size;
                  end_idx = min (start_idx + chunk_size) (length entropy_bytes);
                  chunk = py_slice start_idx end_idx entropy_bytes
              in hashed_data @ sha256 H chunk)
           [] [0..<num_chunks entropy_bytes]"

definition condense :: "digest_fn \<Rightarrow> bytes \<Rightarrow> bytes" where
  "condense H entropy_bytes =
     (if length entropy_bytes > 1024 * 10 then hash_chunks H entropy_bytes
      else sha256 H entropy_bytes @ py_take 1024 entropy_bytes)"

text \<open>
  The words of the specification: the consecutive chunks of a buffer, each of \<open>n\<close> bytes
  but the last, which holds what is left.
\<close>

fun consecutive_chunks :: "nat \<Rightarrow> 'a list \<Rightarrow> 'a list list" where
  "consecutive_chunks n xs =
     (if n = 0 \<or> xs = [] then [] else take n xs # consecutive_chunks n (drop n xs))"

declare consecutive_chunks.simps [simp del]

section \<open>The shared state: pool, lock, flag, clock and randomness\<close>

text \<open>
  The module's globals (lines 69-74) and what the operating system supplies. The threads
  that run the code below are named, so that \<^verbatim>\<open>entropy_lock\<close>, a
  \<^verbatim>\<open>threading.Lock\<close> (not reentrant), can record its owner. The clock is an input:
  it does not advance while a call runs.
\<close>

datatype thread = RequestThread | BackgroundThread | RefreshThread | InitialRefreshThread

datatype error =
  ValueError | TypeError | AttributeError | UnboundLocalError | ZeroDivisionError
  | RuntimeError | OSError

text \<open>The log lines that mark a control-flow point (the source line is given).\<close>

datatype event =
    RefreshingPool \<comment> \<open>line 368\<close>
  | PoolDepleted \<comment> \<open>line 359\<close>
  | ClientEntropyFailed error \<comment> \<open>lines 352 and 673\<close>
  | EmergencyEntropyAdded nat \<comment> \<open>lines 481, 544 and 576\<close>
  | FastPathRequest \<comment> \<open>line 659\<close>
  | BackgroundTriggered \<comment> \<open>line 508\<close>
  | RefreshHung \<comment> \<open>line 566\<close>
  | SeedError error \<comment> \<open>line 713\<close>

text \<open>
  What a video thread does in one round of the loop of lines 395-446, as the environment
  decides it: the file and the decoder are outside the pool manager.
\<close>

datatype video_source =
    FileMissing \<comment> \<open>line 143\<close>
  | CannotOpen \<comment> \<open>line 158\<close>
  | Collected bytes \<comment> \<open>the frame loop ran, \<^verbatim>\<open>entropy_data\<close> is this\<close>
  | DecodeError \<comment> \<open>an exception in the frame loop, line 254\<close>

datatype video_run =
    OutOfTime \<comment> \<open>\<^verbatim>\<open>remaining_time <= 0\<close>, line 399\<close>
  | Hung \<comment> \<open>the thread is alive after the join, line 423\<close>
  | Completed video_source \<comment> \<open>the thread finished \<^verbatim>\<open>process_video\<close>\<close>
  | ThreadError error \<comment> \<open>an exception inside the try of line 406\<close>

record env =
  H256 :: digest_fn \<comment> \<open>hashlib.sha256\<close>
  H512 :: digest_fn \<comment> \<open>hashlib.sha512\<close>
  urandom_tape :: "nat \<Rightarrow> byte" \<comment> \<open>the bytes os.urandom hands out, in order\<close>
  int_of_str :: "string \<Rightarrow> int option" \<comment> \<open>Python's int() on a str; None is ValueError\<close>
  system_noise :: "error + bytes" \<comment> \<open>lines 273-307: times, pids, jitter, file stats\<close>
  video_runs :: "video_run list" \<comment> \<open>one per file of VIDEO\_FILES, in shuffled order\<close>
  timestamp :: bytes \<comment> \<open>line 455\<close>
  random_salt :: "nat \<Rightarrow> bytes" \<comment> \<open>\<^verbatim>\<open>str(random.random()).encode()\<close>, by call\<close>

record state =
  entropy_pool :: bytes
  last_refresh_time :: real
  entropy_lock :: "thread option" \<comment> \<open>the owner, None when the lock is free\<close>
  refresh_in_progress :: bool
  clock :: real \<comment> \<open>what time.time() returns\<close>
  urandom_pos :: nat \<comment> \<open>how many bytes of the tape are used\<close>
  random_calls :: nat \<comment> \<open>how many salts are used\<close>
  events :: "event list"
  last_refresh_attempt :: real \<comment> \<open>local of background\_entropy\_refresh\<close>
  consecutive_failures :: nat \<comment> \<open>local of background\_entropy\_refresh\<close>

text \<open>
  The model follows one thread at a time. A call returns a value, raises, or is
  \<open>Blocked\<close>: it has reached \<^verbatim>\<open>with entropy_lock\<close> while the lock is taken and
  goes no further until the owner releases the lock. Each outcome carries the shared
  state the call leaves. A thread that is \<open>Blocked\<close> on a lock it owns itself waits
  forever: nobody else can release it.
\<close>

datatype 'a outcome = Return 'a state | Raise error state | Blocked state

fun final_state :: "'a outcome \<Rightarrow> state" where
  "final_state (Return a s) = s"
| "final_state (Raise e s) = s"
| "final_state (Blocked s) = s"

definition ENTROPY_POOL_SIZE :: nat where
  "ENTROPY_POOL_SIZE = 1024 * 1024"

definition REFRESH_INTERVAL :: real where
  "REFRESH_INTERVAL = 300"

definition API_KEYS :: "string list" where
  "API_KEYS = [''development-only-key'']"

definition logger :: "event \<Rightarrow> state \<Rightarrow> state" where
  "logger e s = s\<lparr>events := events s @ [e]\<rparr>"

text \<open>\<^verbatim>\<open>with entropy_lock:\<close> acquires on entry and releases on exit.\<close>

definition acquire :: "thread \<Rightarrow> state \<Rightarrow> unit outcome" where
  "acquire t s =
     (case entropy_lock s of
        None \<Rightarrow> Return () (s\<lparr>entropy_lock := Some t\<rparr>)
      | Some owner \<Rightarrow> Blocked s)"

definition release :: "state \<Rightarrow> state" where
  "release s = s\<lparr>entropy_lock := None\<rparr>"

text \<open>\<^verbatim>\<open>os.urandom(n)\<close>: the next \<open>n\<close> bytes; a negative \<open>n\<close> raises ValueError.\<close>

definition os_urandom :: "env \<Rightarrow> nat \<Rightarrow> state \<Rightarrow> bytes \<times> state" where
  "os_urandom E n s =
     (map (urandom_tape E) [urandom_pos s..<urandom_pos s + n],
      s\<lparr>urandom_pos := urandom_pos s + n\<rparr>)"

definition py_urandom :: "env \<Rightarrow> int \<Rightarrow> state \<Rightarrow> bytes outcome" where
  "py_urandom E n s =
     (if n < 0 then Raise ValueError s
      else (case os_urandom E (nat n) s of (bs, s') \<Rightarrow> Return bs s'))"

definition extend_pool :: "bytes \<Rightarrow> state \<Rightarrow> state" where
  "extend_pool bs s = s\<lparr>entropy_pool := entropy_pool s @ bs\<rparr>"

text \<open>\<^verbatim>\<open>compute_hash(data, algorithm)\<close>, lines 114-121: anything but sha512 is sha256.\<close>

datatype algorithm = Sha256 | Sha512 | OtherAlgorithm

fun compute_hash :: "env \<Rightarrow> bytes \<Rightarrow> algorithm \<Rightarrow> bytes" where
  "compute_hash E data Sha256 = sha256 (H256 E) data"
| "compute_hash E data Sha512 = sha512 (H512 E) data"
| "compute_hash E data OtherAlgorithm = sha256 (H256 E) data"

section \<open>Collectors and the refresh of the pool (lines 140-481)\<close>

text \<open>
  \<^verbatim>\<open>process_video\<close> (lines 140-267) never raises: a missing file, a file that does
  not open, an empty collection and any exception give 10KB of \<^verbatim>\<open>os.urandom\<close>;
  collected bytes are condensed.
\<close>

definition process_video :: "env \<Rightarrow> video_source \<Rightarrow> state \<Rightarrow> bytes \<times> state" where
  "process_video E src s =
     (case src of
        FileMissing \<Rightarrow> os_urandom E (1024 * 10) s
      | CannotOpen \<Rightarrow> os_urandom E (1024 * 10) s
      | Collected entropy_data \<Rightarrow>
          (if length entropy_data = 0 then os_urandom E (1024 * 10) s
           else (condense (H256 E) entropy_data, s))
      | DecodeError \<Rightarrow> os_urandom E (1024 * 10) s)"

text \<open>
  \<^verbatim>\<open>collect_system_entropy\<close> (lines 269-312): what the system yields, then 256 bytes
  of \<^verbatim>\<open>os.urandom\<close>.
\<close>

definition collect_system_entropy :: "env \<Rightarrow> state \<Rightarrow> bytes outcome" where
  "collect_system_entropy E s =
     (case system_noise E of
        Inl e \<Rightarrow> Raise e s
      | Inr system_entropy \<Rightarrow>
          (case os_urandom E 256 s of (r, s') \<Rightarrow> Return (system_entropy @ r) s'))"

text \<open>Lines 436-443: the video's bytes join \<^verbatim>\<open>all_entropy\<close>, their hash the pool.\<close>

definition add_video_data :: "env \<Rightarrow> thread \<Rightarrow> bytes \<Rightarrow> bytes \<Rightarrow> state \<Rightarrow> bytes outcome" where
  "add_video_data E t all_entropy video_data s =
     (case acquire t s of
        Return u s1 \<Rightarrow>
          Return (all_entropy @ video_data)
            (release (extend_pool (compute_hash E video_data Sha512) s1))
      | Raise e s1 \<Rightarrow> Raise e s1
      | Blocked s1 \<Rightarrow> Blocked s1)"

text \<open>
  The loop over the videos, lines 395-446. An exception inside the try of line 406 is
  logged and the loop goes on; the result is \<^verbatim>\<open>all_entropy\<close>.
\<close>

fun process_videos :: "env \<Rightarrow> thread \<Rightarrow> video_run list \<Rightarrow> bytes \<Rightarrow> state \<Rightarrow> bytes outcome" where
  "process_videos E t [] all_entropy s = Return all_entropy s"
| "process_videos E t (OutOfTime # rs) all_entropy s = Return all_entropy s"
| "process_videos E t (ThreadError e # rs) all_entropy s = process_videos E t rs all_entropy s"
| "process_videos E t (Hung # rs) all_entropy s =
     (case os_urandom E (1024 * 10) s of (video_data, s1) \<Rightarrow>
        (case add_video_data E t all_entropy video_data s1 of
           Return all_entropy' s2 \<Rightarrow> process_videos E t rs all_entropy' s2
         | Raise e s2 \<Rightarrow> process_videos E t rs (all_entropy @ video_data) s2
         | Blocked s2 \<Rightarrow> Blocked s2))"
| "process_videos E t (Completed src # rs) all_entropy s =
     (case process_video E src s of (video_result, s0) \<Rightarrow>
        (case (if video_result = [] then os_urandom E (1024 * 10) s0 else (video_result, s0)) of
           (video_data, s1) \<Rightarrow>
             (case add_video_data E t all_entropy video_data s1 of
                Return all_entropy' s2 \<Rightarrow> process_videos E t rs all_entropy' s2
              | Raise e s2 \<Rightarrow> process_videos E t rs (all_entropy @ video_data) s2
              | Blocked s2 \<Rightarrow> Blocked s2)))"

text \<open>
  The loop of lines 464-468, run under the lock: 64 more bytes per round until the pool
  holds \<^verbatim>\<open>ENTROPY_POOL_SIZE\<close> bytes.
\<close>

function fill_pool :: "env \<Rightarrow> bytes \<Rightarrow> state \<Rightarrow> state" where
  "fill_pool E final_entropy s =
     (if length (entropy_pool s) < ENTROPY_POOL_SIZE then
        (let r = fst (os_urandom E 32 s);
             s1 = snd (os_urandom E 32 s);
             hash_input = final_entropy @ r @ random_salt E (random_calls s1);
             s2 = s1\<lparr>random_calls := random_calls s1 + 1\<rparr>;
             final_entropy' = compute_hash E hash_input Sha512
         in fill_pool E final_entropy' (extend_pool final_entropy' s2))
      else s)"
  by pat_completeness auto
termination
  by (relation "measure (\<lambda>(E, f, s). ENTROPY_POOL_SIZE - length (entropy_pool s))")
     (auto simp: os_urandom_def extend_pool_def sha512_def)

declare fill_pool.simps [simp del]

text \<open>
  Lines 387-452: the videos, or 100KB of \<^verbatim>\<open>os.urandom\<close> when there is no video
  file.
\<close>

definition collect_video_entropy :: "env \<Rightarrow> thread \<Rightarrow> bytes \<Rightarrow> state \<Rightarrow> bytes outcome" where
  "collect_video_entropy E t all_entropy s =
     (if video_runs E \<noteq> [] then process_videos E t (video_runs E) all_entropy s
      else (case os_urandom E (1024 * 100) s of
              (extra_randomness, s1) \<Rightarrow> Return (all_entropy @ extra_randomness) s1))"

text \<open>The try block of \<^verbatim>\<open>refresh_entropy_pool\<close>, lines 373-473, run by thread \<open>t\<close>.\<close>

definition refresh_try :: "env \<Rightarrow> thread \<Rightarrow> state \<Rightarrow> unit outcome" where
  "refresh_try E t s =
     (case collect_system_entropy E s of
        Raise e s1 \<Rightarrow> Raise e s1
      | Blocked s1 \<Rightarrow> Blocked s1
      | Return system_entropy s1 \<Rightarrow>
          (case acquire t s1 of
             Raise e s2 \<Rightarrow> Raise e s2
           | Blocked s2 \<Rightarrow> Blocked s2
           | Return u s2 \<Rightarrow>
               (case os_urandom E 32 s2 of (r, s3) \<Rightarrow>
                  (let initial_entropy = compute_hash E (system_entropy @ r) Sha512;
                       s4 = release (extend_pool initial_entropy s3)
                   in (case collect_video_entropy E t system_entropy s4 of
                         Raise e s5 \<Rightarrow> Raise e s5
                       | Blocked s5 \<Rightarrow> Blocked s5
                       | Return all_entropy s5 \<Rightarrow>
                           (let final_entropy = compute_hash E (all_entropy @ timestamp E) Sha512
                            in (case acquire t s5 of
                                  Raise e s6 \<Rightarrow> Raise e s6
                                | Blocked s6 \<Rightarrow> Blocked s6
                                | Return u s6 \<Rightarrow>
                                    (let s7 = fill_pool E final_entropy (extend_pool final_entropy s6)
                                     in Return () (release (s7\<lparr>last_refresh_time := clock s7\<rparr>))))))))))"

text \<open>
  \<^verbatim>\<open>refresh_entropy_pool\<close>, lines 364-481: the try block, and the handler that adds
  10KB of emergency entropy under the lock.
\<close>

definition refresh_entropy_pool :: "env \<Rightarrow> thread \<Rightarrow> state \<Rightarrow> unit outcome" where
  "refresh_entropy_pool E t s =
     (case refresh_try E t (logger RefreshingPool s) of
        Return u s1 \<Rightarrow> Return () s1
      | Blocked s1 \<Rightarrow> Blocked s1
      | Raise e s1 \<Rightarrow>
          (case acquire t s1 of
             Raise e' s2 \<Rightarrow> Raise e' s2
           | Blocked s2 \<Rightarrow> Blocked s2
           | Return u s2 \<Rightarrow>
               (case os_urandom E (1024 * 10) s2 of (emergency_entropy, s3) \<Rightarrow>
                  (let s4 = extend_pool emergency_entropy s3;
                       s5 = s4\<lparr>last_refresh_time := clock s4\<rparr>
                   in Return () (release (logger (EmergencyEntropyAdded (1024 * 10)) s5))))))"

section \<open>Seed extraction (generate\_entropy\_seed, lines 314-362)\<close>

text \<open>
  The source's parameter \<^verbatim>\<open>size\<close> is written \<open>sz\<close> below. The client's entropy
  reaches the function as the JSON value of the request: JSON values as
  \<^verbatim>\<open>request.get_json\<close> returns them, floating-point numbers left out. The list
  of a \<open>JDict\<close> holds the items of the dict, every key once.
\<close>

datatype json =
    JNull
  | JBool bool
  | JInt int
  | JStr string
  | JList "json list"
  | JDict "(string \<times> json) list"

text \<open>Python's truth value of a JSON value.\<close>

fun truthy :: "json \<Rightarrow> bool" where
  "truthy JNull = False"
| "truthy (JBool b) = b"
| "truthy (JInt n) = (n \<noteq> 0)"
| "truthy (JStr s) = (s \<noteq> [])"
| "truthy (JList xs) = (xs \<noteq> [])"
| "truthy (JDict kvs) = (kvs \<noteq> [])"

text \<open>
  The try block of lines 345-350. The client's bytes, repeated when they are fewer than
  \<open>sz\<close>, are XORed over \<^verbatim>\<open>seed_bytes\<close>; \<^verbatim>\<open>zip\<close> stops at the shorter
  sequence. An empty client string divides by zero in line 348.
\<close>

definition mix_extra_entropy :: "int \<Rightarrow> bytes \<Rightarrow> string \<Rightarrow> error + bytes" where
  "mix_extra_entropy sz seed_bytes extra_entropy =
     (case fromhex extra_entropy of
        None \<Rightarrow> Inl ValueError
      | Some client_entropy \<Rightarrow>
          (if int (length client_entropy) < sz then
             (if length client_entropy = 0 then Inl ZeroDivisionError
              else
                (let client_entropy' =
                       py_repeat client_entropy (sz div int (length client_entropy) + 1)
                 in Inr (map2 (\<lambda>a b. a XOR b) seed_bytes (py_take sz client_entropy'))))
           else Inr (map2 (\<lambda>a b. a XOR b) seed_bytes (py_take sz client_entropy))))"

text \<open>
  Lines 336-340: when the pool holds at least \<open>sz\<close> bytes, \<^verbatim>\<open>entropy_pool[:size]\<close>
  is taken and \<^verbatim>\<open>entropy_pool[size:]\<close> is what remains; otherwise nothing is taken.
\<close>

definition pool_take :: "int \<Rightarrow> state \<Rightarrow> (bytes \<times> state) option" where
  "pool_take sz s =
     (if int (length (entropy_pool s)) \<ge> sz
      then Some (py_take sz (entropy_pool s),
                 s\<lparr>entropy_pool := py_drop sz (entropy_pool s)\<rparr>)
      else None)"

text \<open>
  Lines 343-352: a non-empty string of client entropy is mixed in; when that raises,
  a warning is logged and \<^verbatim>\<open>seed_bytes\<close> stays as it is.
\<close>

definition incorporate_client_entropy :: "int \<Rightarrow> bytes \<Rightarrow> json \<Rightarrow> state \<Rightarrow> bytes \<times> state" where
  "incorporate_client_entropy sz seed_bytes extra_entropy s =
     (case extra_entropy of
        JStr x \<Rightarrow>
          (if x \<noteq> [] then
             (case mix_extra_entropy sz seed_bytes x of
                Inl e \<Rightarrow> (seed_bytes, logger (ClientEntropyFailed e) s)
              | Inr mixed \<Rightarrow> (mixed, s))
           else (seed_bytes, s))
      | other \<Rightarrow> (seed_bytes, s))"

text \<open>
  Lines 336-362, run under the lock once the refresh check is done: the seed from the
  bytes taken, or the emergency seed when nothing could be taken.
\<close>

definition seed_from_pool :: "env \<Rightarrow> int \<Rightarrow> json \<Rightarrow> state \<Rightarrow> string outcome" where
  "seed_from_pool E sz extra_entropy s =
     (case pool_take sz s of
        Some (seed_bytes, s1) \<Rightarrow>
          (case incorporate_client_entropy sz seed_bytes extra_entropy s1 of
             (seed_bytes', s2) \<Rightarrow>
               (case os_urandom E 32 s2 of (r, s3) \<Rightarrow>
                  Return (hex (py_take sz (compute_hash E (seed_bytes' @ r) Sha256))) s3))
      | None \<Rightarrow>
          (case py_urandom E sz (logger PoolDepleted s) of
             Raise e s1 \<Rightarrow> Raise e s1
           | Blocked s1 \<Rightarrow> Blocked s1
           | Return fallback s1 \<Rightarrow>
               Return (hex (py_take sz (compute_hash E fallback Sha256))) s1))"

text \<open>Line 332: the test that calls \<^verbatim>\<open>refresh_entropy_pool()\<close> from the request.\<close>

definition refresh_needed :: "int \<Rightarrow> state \<Rightarrow> bool" where
  "refresh_needed sz s =
     (int (length (entropy_pool s)) < sz * 2
      \<or> clock s - last_refresh_time s > REFRESH_INTERVAL)"

text \<open>
  \<^verbatim>\<open>generate_entropy_seed(size, extra_entropy)\<close>, run by thread \<open>t\<close>. The whole
  body, the call of \<^verbatim>\<open>refresh_entropy_pool()\<close> included, is inside
  \<^verbatim>\<open>with entropy_lock\<close>.
\<close>

definition generate_entropy_seed :: "env \<Rightarrow> thread \<Rightarrow> int \<Rightarrow> json \<Rightarrow> state \<Rightarrow> string outcome" where
  "generate_entropy_seed E t sz extra_entropy s =
     (case acquire t s of
        Raise e s1 \<Rightarrow> Raise e s1
      | Blocked s1 \<Rightarrow> Blocked s1
      | Return u s1 \<Rightarrow>
          (case (if refresh_needed sz s1 then refresh_entropy_pool E t s1 else Return () s1) of
             Raise e s2 \<Rightarrow> Raise e (release s2)
           | Blocked s2 \<Rightarrow> Blocked s2
           | Return u s2 \<Rightarrow>
               (case seed_from_pool E sz extra_entropy s2 of
                  Raise e s3 \<Rightarrow> Raise e (release s3)
                | Blocked s3 \<Rightarrow> Blocked s3
                | Return seed s3 \<Rightarrow> Return seed (release s3))))"

section \<open>The seed endpoint (get\_seed, lines 632-725)\<close>

record request =
  body :: json \<comment> \<open>\<^verbatim>\<open>request.get_json(silent=True)\<close>, JNull when there is none\<close>
  api_key :: string \<comment> \<open>the X-API-Key header\<close>

text \<open>
  The JSON object of the response. A flag that is False stands for a key that is absent;
  \<^verbatim>\<open>timestamp\<close> and \<^verbatim>\<open>requestId\<close> (the clock and a UUID) are left out.
\<close>

record response =
  seed :: string
  signature :: string
  prefetchDuringRefresh :: bool
  fallback :: bool
  error_of :: "error option"

text \<open>
  The keys of the dict that \<^verbatim>\<open>jsonify\<close> receives: lines 680-686 on the fast path,
  lines 702-707 on the standard path, lines 717-724 in the handler.
\<close>

definition response_keys :: "response \<Rightarrow> string list" where
  "response_keys r =
     [''seed'', ''timestamp'', ''signature'', ''requestId'']
     @ (if prefetchDuringRefresh r then [''prefetchDuringRefresh''] else [])
     @ (if fallback r then [''fallback'', ''error''] else [])"

text \<open>\<^verbatim>\<open>data.get(key, default)\<close>: only a dict has \<^verbatim>\<open>get\<close>.\<close>

definition dict_get :: "json \<Rightarrow> string \<Rightarrow> json \<Rightarrow> error + json" where
  "dict_get data key dflt =
     (case data of
        JDict kvs \<Rightarrow> (case map_of kvs key of None \<Rightarrow> Inr dflt | Some v \<Rightarrow> Inr v)
      | other \<Rightarrow> Inl AttributeError)"

text \<open>\<^verbatim>\<open>int(x)\<close> on a JSON value.\<close>

definition py_int :: "env \<Rightarrow> json \<Rightarrow> error + int" where
  "py_int E v =
     (case v of
        JInt n \<Rightarrow> Inr n
      | JBool b \<Rightarrow> Inr (if b then 1 else 0)
      | JStr x \<Rightarrow> (case int_of_str E x of None \<Rightarrow> Inl ValueError | Some n \<Rightarrow> Inr n)
      | JNull \<Rightarrow> Inl TypeError
      | JList xs \<Rightarrow> Inl TypeError
      | JDict kvs \<Rightarrow> Inl TypeError)"

text \<open>Line 641: \<^verbatim>\<open>data = request.get_json(silent=True) or {}\<close>.\<close>

definition request_data :: "request \<Rightarrow> json" where
  "request_data req = (if truthy (body req) then body req else JDict [])"

text \<open>Line 642: \<^verbatim>\<open>seed_size = min(int(data.get('size', 32)), 128)\<close>.\<close>

definition request_size :: "env \<Rightarrow> request \<Rightarrow> error + int" where
  "request_size E req =
     (case dict_get (request_data req) ''size'' (JInt 32) of
        Inl e \<Rightarrow> Inl e
      | Inr v \<Rightarrow> (case py_int E v of Inl e \<Rightarrow> Inl e | Inr n \<Rightarrow> Inr (min n 128)))"

text \<open>
  The try block of lines 667-671 on the fast path: \<^verbatim>\<open>mixed_seed\<close> starts as
  \<open>seed_size\<close> zero bytes and the loop writes the indices below
  \<^verbatim>\<open>min(len(client_bytes), seed_size)\<close>. Every index the loop reads is in range.
\<close>

definition mix_client_bytes :: "int \<Rightarrow> bytes \<Rightarrow> json \<Rightarrow> error + bytes" where
  "mix_client_bytes seed_size emergency_seed client_entropy =
     (case client_entropy of
        JStr x \<Rightarrow>
          (case fromhex x of
             None \<Rightarrow> Inl ValueError
           | Some client_bytes \<Rightarrow>
               (if seed_size < 0 then Inl ValueError
                else Inr (foldl (\<lambda>mixed_seed i.
                                   mixed_seed[i := emergency_seed ! i
                                                   XOR client_bytes ! (i mod length client_bytes)])
                                (replicate (nat seed_size) 0)
                                [0..<min (length client_bytes) (nat seed_size)])))
      | other \<Rightarrow> Inl TypeError)"

text \<open>Lines 658-690, the fast path.\<close>

definition fast_path :: "env \<Rightarrow> int \<Rightarrow> json \<Rightarrow> state \<Rightarrow> response outcome" where
  "fast_path E seed_size client_entropy s =
     (case py_urandom E seed_size (logger FastPathRequest s) of
        Raise e s1 \<Rightarrow> Raise e s1
      | Blocked s1 \<Rightarrow> Blocked s1
      | Return emergency_seed s1 \<Rightarrow>
          (case (if truthy client_entropy then
                   (case mix_client_bytes seed_size emergency_seed client_entropy of
                      Inl e \<Rightarrow> (emergency_seed, logger (ClientEntropyFailed e) s1)
                    | Inr mixed_seed \<Rightarrow> (mixed_seed, s1))
                 else (emergency_seed, s1)) of
             (emergency_seed', s2) \<Rightarrow>
               (let final_seed = py_take seed_size (compute_hash E emergency_seed' Sha256)
                in Return \<lparr>seed = hex final_seed,
                           signature = hex (sha256 (H256 E) final_seed),
                           prefetchDuringRefresh = True,
                           fallback = False,
                           error_of = None\<rparr> s2)))"

text \<open>\<^verbatim>\<open>str.encode()\<close> of the ASCII strings that are signed.\<close>

definition encode :: "string \<Rightarrow> bytes" where
  "encode x = map of_char x"

definition critical_purposes :: "json list" where
  "critical_purposes = [JStr ''login'', JStr ''startup'', JStr ''initialization'', JStr ''immediate'']"

text \<open>Lines 695-707: the response of the standard path, with its signature.\<close>

definition seed_response :: "env \<Rightarrow> request \<Rightarrow> string \<Rightarrow> response" where
  "seed_response E req seed_hex =
     (let signature_base =
            (if api_key req \<in> set API_KEYS then seed_hex @ api_key req else seed_hex)
      in \<lparr>seed = seed_hex,
          signature = hex (sha256 (H256 E) (encode signature_base)),
          prefetchDuringRefresh = False,
          fallback = False,
          error_of = None\<rparr>)"

text \<open>Lines 643-711: what the try block does once \<^verbatim>\<open>seed_size\<close> is bound.\<close>

definition serve_seed :: "env \<Rightarrow> request \<Rightarrow> int \<Rightarrow> state \<Rightarrow> response outcome" where
  "serve_seed E req seed_size s =
     (case dict_get (request_data req) ''clientEntropy'' JNull of
        Inl e \<Rightarrow> Raise e s
      | Inr client_entropy \<Rightarrow>
          (case dict_get (request_data req) ''purpose'' (JStr ''general'') of
             Inl e \<Rightarrow> Raise e s
           | Inr purpose \<Rightarrow>
               (let is_critical_path = (purpose \<in> set critical_purposes);
                    pool_is_refreshing = refresh_in_progress s
                in if is_critical_path \<and> pool_is_refreshing
                   then fast_path E seed_size client_entropy s
                   else
                     (case generate_entropy_seed E RequestThread seed_size client_entropy s of
                        Raise e s1 \<Rightarrow> Raise e s1
                      | Blocked s1 \<Rightarrow> Blocked s1
                      | Return seed_hex s1 \<Rightarrow> Return (seed_response E req seed_hex) s1))))"

text \<open>
  The handler of lines 712-725. It reads \<^verbatim>\<open>seed_size\<close>, which is unbound when
  lines 641-642 raised, and \<^verbatim>\<open>os.urandom\<close> raises on a negative size: an exception
  inside the handler leaves the view.
\<close>

definition fallback_response :: "env \<Rightarrow> int option \<Rightarrow> error \<Rightarrow> state \<Rightarrow> response outcome" where
  "fallback_response E seed_size e s =
     (case seed_size of
        None \<Rightarrow> Raise UnboundLocalError (logger (SeedError e) s)
      | Some n \<Rightarrow>
          (case py_urandom E n (logger (SeedError e) s) of
             Raise e' s1 \<Rightarrow> Raise e' s1
           | Blocked s1 \<Rightarrow> Blocked s1
           | Return bs s1 \<Rightarrow>
               Return \<lparr>seed = hex bs,
                       signature = ''fallback'',
                       prefetchDuringRefresh = False,
                       fallback = True,
                       error_of = Some e\<rparr> s1))"

text \<open>
  \<^verbatim>\<open>get_seed()\<close>. \<open>Return\<close> is a JSON response with status 200, \<open>Raise\<close> an
  exception that leaves the view (status 500), \<open>Blocked\<close> a request that is never
  answered.
\<close>

definition get_seed :: "env \<Rightarrow> request \<Rightarrow> state \<Rightarrow> response outcome" where
  "get_seed E req s =
     (case request_size E req of
        Inl e \<Rightarrow> fallback_response E None e s
      | Inr seed_size \<Rightarrow>
          (case serve_seed E req seed_size s of
             Raise e s1 \<Rightarrow> fallback_response E (Some seed_size) e s1
           | Blocked s1 \<Rightarrow> Blocked s1
           | Return r s1 \<Rightarrow> Return r s1))"

section \<open>The background scheduler (background\_entropy\_refresh, lines 483-625)\<close>

text \<open>
  \<^verbatim>\<open>refresh_with_cleanup\<close>, lines 520-555, the target of the refresh thread. The
  assignment to \<^verbatim>\<open>last_refresh_time\<close> in line 543 binds a local of the nested
  function (it declares no global), so the module's variable keeps its value. The
  \<^verbatim>\<open>finally\<close> clause clears the flag when the function is left, not before.
\<close>

definition refresh_with_cleanup :: "env \<Rightarrow> state \<Rightarrow> unit outcome" where
  "refresh_with_cleanup E s =
     (case refresh_entropy_pool E RefreshThread s of
        Blocked s1 \<Rightarrow> Blocked s1
      | Return u s1 \<Rightarrow>
          Return () (s1\<lparr>consecutive_failures := consecutive_failures s1 - 1,
                        refresh_in_progress := False\<rparr>)
      | Raise e s1 \<Rightarrow>
          (case acquire RefreshThread (s1\<lparr>consecutive_failures := consecutive_failures s1 + 1\<rparr>) of
             Raise e' s2 \<Rightarrow> Raise e' (s2\<lparr>refresh_in_progress := False\<rparr>)
           | Blocked s2 \<Rightarrow> Blocked s2
           | Return u s2 \<Rightarrow>
               (case os_urandom E (1024 * 20) s2 of (emergency_entropy, s3) \<Rightarrow>
                  Return () ((release (logger (EmergencyEntropyAdded (1024 * 20))
                                        (extend_pool emergency_entropy s3)))
                             \<lparr>refresh_in_progress := False\<rparr>))))"

text \<open>Lines 593-611: the sleep after a round, from the pool's size and the failures.\<close>

definition sleep_time :: "state \<Rightarrow> real" where
  "sleep_time s =
     (let pool_ratio = real (length (entropy_pool s)) / real ENTROPY_POOL_SIZE
      in if consecutive_failures s > 5
         then min (60 * real (consecutive_failures s)) 600
         else if pool_ratio > 0.9 then 90
         else if pool_ratio > 0.7 then 45
         else if pool_ratio > 0.5 then 30
         else 15)"

text \<open>
  Lines 565-590, reached when the refresh thread is alive after \<^verbatim>\<open>join(timeout=75)\<close>.
  The code is inside the \<^verbatim>\<open>with entropy_lock\<close> of line 494 and enters
  \<^verbatim>\<open>with entropy_lock\<close> again in line 573. Were the inner block ever left, its exit
  would release the lock and the exit of the outer block would raise RuntimeError on the
  unlocked lock.
\<close>

definition refresh_timed_out :: "env \<Rightarrow> state \<Rightarrow> unit outcome" where
  "refresh_timed_out E s =
     (case os_urandom E (1024 * 64) (logger RefreshHung s) of (emergency_entropy, s1) \<Rightarrow>
        (case acquire BackgroundThread s1 of
           Raise e s2 \<Rightarrow> Raise e s2
         | Blocked s2 \<Rightarrow> Blocked s2
         | Return u s2 \<Rightarrow>
             (let s3 = extend_pool emergency_entropy s2;
                  s4 = release (logger (EmergencyEntropyAdded (1024 * 64))
                                 (s3\<lparr>last_refresh_time := clock s3\<rparr>));
                  s5 = s4\<lparr>consecutive_failures := consecutive_failures s4 + 1,
                          refresh_in_progress := False\<rparr>
              in Raise RuntimeError s5)))"

text \<open>
  The block of lines 494-590, with the lock of line 494 held by the background thread:
  the back-off, the trigger, the refresh thread and the join. A refresh thread that is
  \<open>Blocked\<close> is alive when the join times out. The result is the sleep of line 503, if
  that branch is taken.
\<close>

definition refresh_if_due :: "env \<Rightarrow> state \<Rightarrow> real option outcome" where
  "refresh_if_due E s =
     (let current_time = clock s;
          pool_low = (length (entropy_pool s) < ENTROPY_POOL_SIZE div 2);
          refresh_due = (current_time - last_refresh_time s > REFRESH_INTERVAL);
          time_since_last_attempt = current_time - last_refresh_attempt s
      in if consecutive_failures s > 3 \<and> time_since_last_attempt < 120
         then Return (Some 30) s
         else if (pool_low \<or> refresh_due) \<and> \<not> refresh_in_progress s
         then
           (let s1 = (logger BackgroundTriggered s)
                       \<lparr>last_refresh_attempt := current_time, refresh_in_progress := True\<rparr>
            in (case refresh_with_cleanup E s1 of
                  Return u s2 \<Rightarrow> Return None s2
                | Raise e s2 \<Rightarrow> Return None s2
                | Blocked s2 \<Rightarrow>
                    (case refresh_timed_out E s2 of
                       Return u s3 \<Rightarrow> Return None s3
                     | Raise e s3 \<Rightarrow> Raise e s3
                     | Blocked s3 \<Rightarrow> Blocked s3)))
         else Return None s)"

text \<open>
  One round of the \<^verbatim>\<open>while True\<close> loop of \<^verbatim>\<open>background_entropy_refresh\<close>: the
  result is the time the thread sleeps before the next round. The handler of lines
  619-625 counts a failure and clears the flag.
\<close>

definition background_entropy_refresh :: "env \<Rightarrow> state \<Rightarrow> real outcome" where
  "background_entropy_refresh E s =
     (case acquire BackgroundThread s of
        Raise e s1 \<Rightarrow>
          Return 60 (s1\<lparr>consecutive_failures := consecutive_failures s1 + 1,
                        refresh_in_progress := False\<rparr>)
      | Blocked s1 \<Rightarrow> Blocked s1
      | Return u s1 \<Rightarrow>
          (case refresh_if_due E s1 of
             Blocked s2 \<Rightarrow> Blocked s2
           | Raise e s2 \<Rightarrow>
               Return 60 (s2\<lparr>consecutive_failures := consecutive_failures s2 + 1,
                             refresh_in_progress := False\<rparr>)
           | Return (Some t) s2 \<Rightarrow> Return t (release s2)
           | Return None s2 \<Rightarrow> Return (sleep_time (release s2)) (release s2)))"

text \<open>
  \<^verbatim>\<open>initial_refresh\<close>, lines 766-775, the target of the thread the main program
  starts once the flag is set: the refresh, and the flag cleared whatever happened.
\<close>

definition initial_refresh :: "env \<Rightarrow> state \<Rightarrow> unit outcome" where
  "initial_refresh E s =
     (case refresh_entropy_pool E InitialRefreshThread s of
        Return u s1 \<Rightarrow> Return () (s1\<lparr>refresh_in_progress := False\<rparr>)
      | Raise e s1 \<Rightarrow> Return () (s1\<lparr>refresh_in_progress := False\<rparr>)
      | Blocked s1 \<Rightarrow> Blocked s1)"

section \<open>A concrete environment and start state\<close>

text \<open>
  An environment to run the model in: toy digests (the data itself, cut or padded to the
  digest's length), the random tape 0, 1, 2, ..., no video file, and a system collector
  that yields no bytes of its own. \<open>started\<close> is the state the main program sets up in
  lines 756-761, with the given bytes in the pool and the clock at the last refresh.
\<close>

definition demo_env :: env where
  "demo_env = \<lparr>H256 = (\<lambda>data. data), H512 = (\<lambda>data. data),
               urandom_tape = (\<lambda>i. of_nat i), int_of_str = (\<lambda>x. None),
               system_noise = Inr [], video_runs = [], timestamp = [],
               random_salt = (\<lambda>k. [])\<rparr>"

definition started :: "bytes \<Rightarrow> state" where
  "started pool = \<lparr>entropy_pool = pool, last_refresh_time = 0, entropy_lock = None,
                    refresh_in_progress = False, clock = 0, urandom_pos = 0,
                    random_calls = 0, events = [], last_refresh_attempt = 0,
                    consecutive_failures = 0\<rparr>"

definition post :: "(string \<times> json) list \<Rightarrow> request" where
  "post kvs = \<lparr>body = JDict kvs, api_key = ''development-only-key''\<rparr>"

text \<open>The value a call returned, if it returned.\<close>

fun returned :: "'a outcome \<Rightarrow> 'a option" where
  "returned (Return a s) = Some a"
| "returned (Raise e s) = None"
| "returned (Blocked s) = None"

text \<open>The state in which a call waits for the lock, if it waits.\<close>

fun blocked_in :: "'a outcome \<Rightarrow> state option" where
  "blocked_in (Blocked s) = Some s"
| "blocked_in (Return a s) = None"
| "blocked_in (Raise e s) = None"

section \<open>Auxiliary definitions for the proofs\<close>

text \<open>The number of chunks of \<open>c\<close> bytes that \<open>l\<close> bytes need.\<close>

definition ceil_div :: "nat \<Rightarrow> nat \<Rightarrow> nat" where
  "ceil_div l c = l div c + (if l mod c \<noteq> 0 then 1 else 0)"

text \<open>
  Where \<^verbatim>\<open>refresh_entropy_pool\<close> stops when the lock is taken: the start of the
  refresh is logged and, if the system collector did not raise, its 256 random bytes are
  drawn.
\<close>

definition waiting_state :: "env \<Rightarrow> state \<Rightarrow> state" where
  "waiting_state E s =
     (case system_noise E of
        Inl e \<Rightarrow> logger RefreshingPool s
      | Inr noise \<Rightarrow> snd (os_urandom E 256 (logger RefreshingPool s)))"

text \<open>
  Where the background thread stops in line 573 after it has triggered a refresh from
  state \<open>s\<close>.
\<close>

definition hung_state :: "env \<Rightarrow> state \<Rightarrow> state" where
  "hung_state E s =
     snd (os_urandom E (1024 * 64)
            (logger RefreshHung
               (waiting_state E
                  ((logger BackgroundTriggered (s\<lparr>entropy_lock := Some BackgroundThread\<rparr>))
                     \<lparr>last_refresh_attempt := clock s, refresh_in_progress := True\<rparr>))))"

section \<open>Facts about the library functions\<close>

lemma length_sha256 [simp]: "length (sha256 H data) = 32"
  by (simp add: sha256_def)

lemma length_sha512 [simp]: "length (sha512 H data) = 64"
  by (simp add: sha512_def)

lemma length_hex [simp]: "length (hex bs) = 2 * length bs"
  by (induction bs) (simp_all add: hex_def)

lemma snd_os_urandom: "snd (os_urandom E n s) = s\<lparr>urandom_pos := urandom_pos s + n\<rparr>"
  by (simp add: os_urandom_def)

lemma length_os_urandom: "length (fst (os_urandom E n s)) = n"
  by (simp add: os_urandom_def)

lemma replicate_4: "replicate 4 x = [x, x, x, x]"
  by (simp add: numeral_eq_Suc)

section \<open>Chunking\<close>

lemma foldl_append_concat:
  "foldl (\<lambda>acc i. acc @ f i) a is = a @ concat (map f is)"
  by (induction "is" arbitrary: a) simp_all

lemma py_slice_chunk:
  "py_slice (i * n) (min (i * n + n) (length xs)) xs = take n (drop (i * n) xs)"
  by (simp add: py_slice_def min_def)

lemma ceil_div_step:
  assumes "0 < n" "0 < l"
  shows "ceil_div l n = Suc (ceil_div (l - n) n)"
proof (cases "l < n")
  case True
  with assms show ?thesis by (simp add: ceil_div_def)
next
  case False
  then have "n \<le> l" by simp
  then have "l div n = Suc ((l - n) div n)" "l mod n = (l - n) mod n"
    using assms by (simp_all add: le_div_geq le_mod_geq)
  then show ?thesis by (simp add: ceil_div_def)
qed

lemma consecutive_chunks_index:
  "0 < n \<Longrightarrow> consecutive_chunks n xs =
     map (\<lambda>i. take n (drop (i * n) xs)) [0..<ceil_div (length xs) n]"
proof (induction n xs rule: consecutive_chunks.induct)
  case (1 n xs)
  show ?case
  proof (cases "xs = []")
    case True
    then show ?thesis by (simp add: consecutive_chunks.simps ceil_div_def)
  next
    case False
    then have l: "0 < length xs" by simp
    have ih: "consecutive_chunks n (drop n xs) =
        map (\<lambda>i. take n (drop (i * n) (drop n xs))) [0..<ceil_div (length xs - n) n]"
      using 1 False by simp
    have "consecutive_chunks n xs = take n xs # consecutive_chunks n (drop n xs)"
      using False 1(2) by (subst consecutive_chunks.simps) simp
    also have "\<dots> = map (\<lambda>i. take n (drop (i * n) xs)) (0 # map Suc [0..<ceil_div (length xs - n) n])"
      by (simp add: ih comp_def add.commute)
    also have "0 # map Suc [0..<ceil_div (length xs - n) n] = [0..<ceil_div (length xs) n]"
      using ceil_div_step [OF 1(2) l] by (simp add: upt_conv_Cons map_Suc_upt del: upt_Suc)
    finally show ?thesis .
  qed
qed

lemma hash_chunks_eq:
  "hash_chunks H bs = concat (map (sha256 H) (consecutive_chunks chunk_size bs))"
proof -
  have "hash_chunks H bs = concat (map (\<lambda>i. sha256 H (take chunk_size (drop (i * chunk_size) bs))) [0..<num_chunks bs])"
    unfolding hash_chunks_def Let_def py_slice_chunk by (simp add: foldl_append_concat)
  also have "\<dots> = concat (map (sha256 H) (map (\<lambda>i. take chunk_size (drop (i * chunk_size) bs)) [0..<ceil_div (length bs) chunk_size]))"
    by (simp add: comp_def num_chunks_def ceil_div_def)
  also have "\<dots> = concat (map (sha256 H) (consecutive_chunks chunk_size bs))"
    by (subst consecutive_chunks_index) (simp_all add: chunk_size_def)
  finally show ?thesis .
qed

lemma length_concat_digests:
  "length (concat (map (sha256 H) cs)) = 32 * length cs"
  by (induction cs) simp_all

lemma length_hash_chunks: "length (hash_chunks H bs) = 32 * num_chunks bs"
  unfolding hash_chunks_def Let_def py_slice_chunk
  by (simp add: foldl_append_concat length_concat comp_def sum_list_triv)

lemma num_chunks_bound: "10240 < length bs \<Longrightarrow> 32 * num_chunks bs \<le> length bs"
  unfolding num_chunks_def chunk_size_def by (auto split: if_splits)

lemma ceil_div_formula:
  assumes "0 < c"
  shows "ceil_div l c = (l + (c - 1)) div c"
proof -
  define q r where "q = l div c" and "r = l mod c"
  have l: "l = r + q * c"
    by (simp add: q_def r_def)
  have r: "r < c"
    using assms by (simp add: r_def)
  have "l + (c - 1) = (r + (c - 1)) + q * c"
    by (simp add: l)
  then have "(l + (c - 1)) div c = ((r + (c - 1)) + q * c) div c"
    by (rule arg_cong)
  also have "\<dots> = q + (r + (c - 1)) div c"
    using assms by (intro div_mult_self1) simp
  also have "(r + (c - 1)) div c = (if r \<noteq> 0 then 1 else 0)"
  proof (cases "r = 0")
    case True
    then show ?thesis using assms by simp
  next
    case False
    have "c * 1 \<le> r + (c - 1)" "r + (c - 1) < c * Suc 1"
      using False r by simp_all
    then have "(r + (c - 1)) div c = 1"
      by (rule div_nat_eqI)
    then show ?thesis using False by simp
  qed
  finally show ?thesis
    by (simp add: ceil_div_def q_def r_def)
qed

lemma num_chunks_ceil: "num_chunks bs = (length bs + 10239) div 10240"
  using ceil_div_formula [of 10240 "length bs"]
  by (simp add: num_chunks_def chunk_size_def ceil_div_def)

section \<open>The lock\<close>

lemma acquire_free: "entropy_lock s = None \<Longrightarrow> acquire t s = Return () (s\<lparr>entropy_lock := Some t\<rparr>)"
  by (simp add: acquire_def)

lemma acquire_held: "entropy_lock s = Some owner \<Longrightarrow> acquire t s = Blocked s"
  by (simp add: acquire_def)

lemma refresh_entropy_pool_held:
  assumes "entropy_lock s = Some owner"
  shows "refresh_entropy_pool E t s = Blocked (waiting_state E s)"
proof (cases "system_noise E")
  case (Inl e)
  then have "refresh_try E t (logger RefreshingPool s) = Raise e (logger RefreshingPool s)"
    by (simp add: refresh_try_def collect_system_entropy_def)
  moreover have "acquire t (logger RefreshingPool s) = Blocked (logger RefreshingPool s)"
    using assms by (simp add: acquire_def logger_def)
  ultimately show ?thesis
    using Inl by (simp add: refresh_entropy_pool_def waiting_state_def)
next
  case (Inr noise)
  obtain r s1 where u: "os_urandom E 256 (logger RefreshingPool s) = (r, s1)"
    by (cases "os_urandom E 256 (logger RefreshingPool s)")
  then have "entropy_lock s1 = Some owner"
    using assms by (auto simp: os_urandom_def logger_def)
  then have "acquire t s1 = Blocked s1"
    by (rule acquire_held)
  then have "refresh_try E t (logger RefreshingPool s) = Blocked s1"
    using Inr u by (simp add: refresh_try_def collect_system_entropy_def)
  then show ?thesis
    using Inr u by (simp add: refresh_entropy_pool_def waiting_state_def)
qed

lemma waiting_state_fields [simp]:
  "entropy_pool (waiting_state E s) = entropy_pool s"
  "entropy_lock (waiting_state E s) = entropy_lock s"
  "refresh_in_progress (waiting_state E s) = refresh_in_progress s"
  "events (waiting_state E s) = events s @ [RefreshingPool]"
  "last_refresh_time (waiting_state E s) = last_refresh_time s"
  "consecutive_failures (waiting_state E s) = consecutive_failures s"
  by (simp_all add: waiting_state_def os_urandom_def logger_def split: sum.splits)

lemma generate_entropy_seed_deadlock:
  assumes "entropy_lock s = None" "refresh_needed sz s"
  shows "generate_entropy_seed E t sz x s = Blocked (waiting_state E (s\<lparr>entropy_lock := Some t\<rparr>))"
proof -
  have "refresh_needed sz (s\<lparr>entropy_lock := Some t\<rparr>)"
    using assms(2) by (simp add: refresh_needed_def)
  moreover have "refresh_entropy_pool E t (s\<lparr>entropy_lock := Some t\<rparr>)
      = Blocked (waiting_state E (s\<lparr>entropy_lock := Some t\<rparr>))"
    by (rule refresh_entropy_pool_held) simp
  ultimately show ?thesis
    using assms(1) by (simp add: generate_entropy_seed_def acquire_free)
qed

lemma refresh_with_cleanup_held:
  assumes "entropy_lock s = Some owner"
  shows "refresh_with_cleanup E s = Blocked (waiting_state E s)"
  using refresh_entropy_pool_held [OF assms] by (simp add: refresh_with_cleanup_def)

lemma refresh_timed_out_held:
  assumes "entropy_lock s = Some owner"
  shows "refresh_timed_out E s = Blocked (snd (os_urandom E (1024 * 64) (logger RefreshHung s)))"
proof -
  have "entropy_lock (snd (os_urandom E (1024 * 64) (logger RefreshHung s))) = Some owner"
    using assms by (simp add: snd_os_urandom logger_def)
  then have "acquire BackgroundThread (snd (os_urandom E (1024 * 64) (logger RefreshHung s)))
      = Blocked (snd (os_urandom E (1024 * 64) (logger RefreshHung s)))"
    by (rule acquire_held)
  then show ?thesis
    by (simp add: refresh_timed_out_def split_def)
qed

lemma background_refresh_deadlock:
  assumes free: "entropy_lock s = None"
    and no_backoff: "\<not> (consecutive_failures s > 3 \<and> clock s - last_refresh_attempt s < 120)"
    and due: "length (entropy_pool s) < ENTROPY_POOL_SIZE div 2
              \<or> clock s - last_refresh_time s > REFRESH_INTERVAL"
    and idle: "\<not> refresh_in_progress s"
  shows "background_entropy_refresh E s = Blocked (hung_state E s)"
proof -
  let ?s1 = "s\<lparr>entropy_lock := Some BackgroundThread\<rparr>"
  let ?s2 = "(logger BackgroundTriggered ?s1)
               \<lparr>last_refresh_attempt := clock s, refresh_in_progress := True\<rparr>"
  have held2: "entropy_lock ?s2 = Some BackgroundThread"
    by (simp add: logger_def)
  have w: "refresh_with_cleanup E ?s2 = Blocked (waiting_state E ?s2)"
    using held2 by (rule refresh_with_cleanup_held)
  have "entropy_lock (waiting_state E ?s2) = Some BackgroundThread"
    using held2 by simp
  then have t: "refresh_timed_out E (waiting_state E ?s2) = Blocked (hung_state E s)"
    unfolding hung_state_def by (rule refresh_timed_out_held)
  have "refresh_if_due E ?s1 = Blocked (hung_state E s)"
    using no_backoff due idle w t
    by (simp add: refresh_if_due_def Let_def)
  then show ?thesis
    using free by (simp add: background_entropy_refresh_def acquire_free)
qed

lemma hung_state_fields:
  "entropy_pool (hung_state E s) = entropy_pool s"
  "entropy_lock (hung_state E s) = Some BackgroundThread"
  "refresh_in_progress (hung_state E s) = True"
  "events (hung_state E s) = events s @ [BackgroundTriggered, RefreshingPool, RefreshHung]"
  "consecutive_failures (hung_state E s) = consecutive_failures s"
  by (simp_all add: hung_state_def snd_os_urandom logger_def)

section \<open>Extraction\<close>

lemma incorporate_keeps:
  "entropy_pool (snd (incorporate_client_entropy sz sb x s)) = entropy_pool s"
  "entropy_lock (snd (incorporate_client_entropy sz sb x s)) = entropy_lock s"
  "count_list (events (snd (incorporate_client_entropy sz sb x s))) RefreshingPool
     = count_list (events s) RefreshingPool"
  by (simp_all add: incorporate_client_entropy_def logger_def split: json.splits sum.splits)

lemma seed_from_pool_taken:
  assumes "pool_take sz s = Some (sb, s1)"
  shows "\<exists>h s'. seed_from_pool E sz x s = Return h s'
           \<and> entropy_pool s' = entropy_pool s1 \<and> entropy_lock s' = entropy_lock s1
           \<and> length h = 2 * length (py_take sz (replicate 32 (0::byte)))
           \<and> count_list (events s') RefreshingPool = count_list (events s1) RefreshingPool"
proof -
  obtain sb' s2 where i: "incorporate_client_entropy sz sb x s1 = (sb', s2)"
    by (cases "incorporate_client_entropy sz sb x s1")
  have k: "entropy_pool s2 = entropy_pool s1" "entropy_lock s2 = entropy_lock s1"
    "count_list (events s2) RefreshingPool = count_list (events s1) RefreshingPool"
    using incorporate_keeps [of sz sb x s1] i by simp_all
  have "seed_from_pool E sz x s
      = Return (hex (py_take sz (sha256 (H256 E) (sb' @ fst (os_urandom E 32 s2)))))
          (snd (os_urandom E 32 s2))"
    using assms i by (simp add: seed_from_pool_def split_def)
  moreover have "length (py_take sz (sha256 (H256 E) (sb' @ fst (os_urandom E 32 s2))))
      = length (py_take sz (replicate 32 (0::byte)))"
    by (simp add: py_take_def min.commute)
  ultimately show ?thesis
    using k by (simp add: snd_os_urandom)
qed

lemma seed_from_pool_depleted:
  assumes "pool_take sz s = None"
  shows "seed_from_pool E sz x s
      = Return (hex (py_take sz (sha256 (H256 E) (fst (os_urandom E (nat sz) (logger PoolDepleted s))))))
          (snd (os_urandom E (nat sz) (logger PoolDepleted s)))"
proof -
  have "0 \<le> sz"
    using assms by (simp add: pool_take_def split: if_splits)
  then show ?thesis
    using assms by (simp add: seed_from_pool_def py_urandom_def split_def)
qed

lemma seed_from_pool_events:
  "count_list (events (final_state (seed_from_pool E sz x s))) RefreshingPool
     = count_list (events s) RefreshingPool"
proof (cases "pool_take sz s")
  case None
  then show ?thesis
    by (simp add: seed_from_pool_depleted snd_os_urandom logger_def)
next
  case (Some a)
  obtain sb s1 where a: "a = (sb, s1)" by (cases a)
  have "events s1 = events s"
    using Some a by (auto simp: pool_take_def split: if_splits)
  then show ?thesis
    using seed_from_pool_taken [of sz s sb s1 E x] Some a by auto
qed

lemma generate_entropy_seed_fresh:
  assumes "entropy_lock s = None" "\<not> refresh_needed sz s"
  shows "generate_entropy_seed E t sz x s =
     (case seed_from_pool E sz x (s\<lparr>entropy_lock := Some t\<rparr>) of
        Raise e s3 \<Rightarrow> Raise e (release s3)
      | Blocked s3 \<Rightarrow> Blocked s3
      | Return h s3 \<Rightarrow> Return h (release s3))"
proof -
  have "\<not> refresh_needed sz (s\<lparr>entropy_lock := Some t\<rparr>)"
    using assms(2) by (simp add: refresh_needed_def)
  then show ?thesis
    using assms(1) by (simp add: generate_entropy_seed_def acquire_free)
qed

lemma data_is_dict:
  assumes "dict_get data key dflt = Inr v"
  obtains kvs where "data = JDict kvs"
  using assms by (cases data) (simp_all add: dict_get_def)

lemma dict_get_dict: "\<exists>v. dict_get (JDict kvs) key dflt = Inr v"
  by (simp add: dict_get_def split: option.splits)

lemma fast_path_returns:
  assumes "0 \<le> n"
  shows "\<exists>r f. \<forall>pool. fast_path E n ce (s\<lparr>entropy_pool := pool\<rparr>)
             = Return r ((f s)\<lparr>entropy_pool := pool\<rparr>)
           \<and> prefetchDuringRefresh r \<and> \<not> fallback r
           \<and> entropy_lock (f s) = entropy_lock s"
proof -
  let ?em = "map (urandom_tape E) [urandom_pos s..<urandom_pos s + nat n]"
  let ?s1 = "(logger FastPathRequest s)\<lparr>urandom_pos := urandom_pos s + nat n\<rparr>"
  have u: "\<And>pool. py_urandom E n (logger FastPathRequest (s\<lparr>entropy_pool := pool\<rparr>))
      = Return ?em (?s1\<lparr>entropy_pool := pool\<rparr>)"
    using assms by (simp add: py_urandom_def os_urandom_def logger_def)
  show ?thesis
  proof (cases "truthy ce")
    case False
    then show ?thesis
      unfolding fast_path_def u
      by (intro exI [of _ "\<lparr>seed = hex (py_take n (compute_hash E ?em Sha256)),
                signature = hex (sha256 (H256 E) (py_take n (compute_hash E ?em Sha256))),
                prefetchDuringRefresh = True, fallback = False, error_of = None\<rparr>"]
              exI [of _ "\<lambda>s. (logger FastPathRequest s)\<lparr>urandom_pos := urandom_pos s + nat n\<rparr>"])
         (simp add: logger_def Let_def)
  next
    case True
    show ?thesis
    proof (cases "mix_client_bytes n ?em ce")
      case (Inl e)
      then show ?thesis
        unfolding fast_path_def u using True
        by (intro exI [of _ "\<lparr>seed = hex (py_take n (compute_hash E ?em Sha256)),
                signature = hex (sha256 (H256 E) (py_take n (compute_hash E ?em Sha256))),
                prefetchDuringRefresh = True, fallback = False, error_of = None\<rparr>"]
              exI [of _ "\<lambda>s. logger (ClientEntropyFailed e)
                    ((logger FastPathRequest s)\<lparr>urandom_pos := urandom_pos s + nat n\<rparr>)"])
           (simp add: logger_def Let_def)
    next
      case (Inr m)
      then show ?thesis
        unfolding fast_path_def u using True
        by (intro exI [of _ "\<lparr>seed = hex (py_take n (compute_hash E m Sha256)),
                signature = hex (sha256 (H256 E) (py_take n (compute_hash E m Sha256))),
                prefetchDuringRefresh = True, fallback = False, error_of = None\<rparr>"]
              exI [of _ "\<lambda>s. (logger FastPathRequest s)\<lparr>urandom_pos := urandom_pos s + nat n\<rparr>"])
           (simp add: logger_def Let_def)
    qed
  qed
qed

section \<open>A refresh that can take the lock only appends\<close>

lemma add_video_data_free:
  assumes "entropy_lock s = None"
  shows "add_video_data E t a v s
      = Return (a @ v) (release (extend_pool (compute_hash E v Sha512) (s\<lparr>entropy_lock := Some t\<rparr>)))"
  using assms by (simp add: add_video_data_def acquire_free)

lemma process_videos_free:
  assumes "entropy_lock s = None"
  shows "\<exists>a' s'. process_videos E t rs a s = Return a' s'
           \<and> prefix (entropy_pool s) (entropy_pool s') \<and> entropy_lock s' = None"
  using assms
proof (induction E t rs a s rule: process_videos.induct)
  case (1 E t all_entropy s)
  then show ?case by simp
next
  case (2 E t rs all_entropy s)
  then show ?case by simp
next
  case (3 E t e rs all_entropy s)
  then show ?case by simp
next
  case (4 E t rs all_entropy s)
  obtain v s1 where u: "os_urandom E (1024 * 10) s = (v, s1)"
    by (cases "os_urandom E (1024 * 10) s")
  then have s1: "entropy_lock s1 = None" "entropy_pool s1 = entropy_pool s"
    using "4.prems" by (auto simp: os_urandom_def)
  let ?s2 = "release (extend_pool (compute_hash E v Sha512) (s1\<lparr>entropy_lock := Some t\<rparr>))"
  have a: "add_video_data E t all_entropy v s1 = Return (all_entropy @ v) ?s2"
    using s1(1) by (rule add_video_data_free)
  have free2: "entropy_lock ?s2 = None"
    by (simp add: release_def)
  have "\<exists>a' s'. process_videos E t rs (all_entropy @ v) ?s2 = Return a' s'
           \<and> prefix (entropy_pool ?s2) (entropy_pool s') \<and> entropy_lock s' = None"
    using "4.IH"(1) [OF u [symmetric] a free2] .
  moreover have "prefix (entropy_pool s) (entropy_pool ?s2)"
    by (simp add: release_def extend_pool_def s1)
  ultimately show ?case
    using u a by (auto intro: prefix_order.trans)
next
  case (5 E t src rs all_entropy s)
  obtain res s0 where p: "process_video E src s = (res, s0)"
    by (cases "process_video E src s")
  then have s0: "entropy_lock s0 = None" "entropy_pool s0 = entropy_pool s"
    using "5.prems" by (auto simp: process_video_def os_urandom_def split: video_source.splits if_splits)
  obtain v s1 where u: "(if res = [] then os_urandom E (1024 * 10) s0 else (res, s0)) = (v, s1)"
    by (cases "if res = [] then os_urandom E (1024 * 10) s0 else (res, s0)")
  then have s1: "entropy_lock s1 = None" "entropy_pool s1 = entropy_pool s"
    using s0 by (auto simp: os_urandom_def split: if_splits)
  let ?s2 = "release (extend_pool (compute_hash E v Sha512) (s1\<lparr>entropy_lock := Some t\<rparr>))"
  have a: "add_video_data E t all_entropy v s1 = Return (all_entropy @ v) ?s2"
    using s1(1) by (rule add_video_data_free)
  have free2: "entropy_lock ?s2 = None"
    by (simp add: release_def)
  have "\<exists>a' s'. process_videos E t rs (all_entropy @ v) ?s2 = Return a' s'
           \<and> prefix (entropy_pool ?s2) (entropy_pool s') \<and> entropy_lock s' = None"
    using "5.IH"(1) [OF p [symmetric] u [symmetric] a free2] .
  moreover have "prefix (entropy_pool s) (entropy_pool ?s2)"
    by (simp add: release_def extend_pool_def s1)
  ultimately show ?case
    using p u a by (auto intro: prefix_order.trans)
qed

lemma fill_pool_grows:
  "prefix (entropy_pool s) (entropy_pool (fill_pool E f s))
   \<and> entropy_lock (fill_pool E f s) = entropy_lock s
   \<and> ENTROPY_POOL_SIZE \<le> length (entropy_pool (fill_pool E f s))"
proof (induction E f s rule: fill_pool.induct)
  case (1 E final_entropy s)
  show ?case
  proof (cases "length (entropy_pool s) < ENTROPY_POOL_SIZE")
    case False
    then show ?thesis
      by (subst (1 2 3) fill_pool.simps) simp
  next
    case True
    let ?r = "fst (os_urandom E 32 s)"
    let ?s1 = "snd (os_urandom E 32 s)"
    let ?h = "final_entropy @ ?r @ random_salt E (random_calls ?s1)"
    let ?s2 = "?s1\<lparr>random_calls := random_calls ?s1 + 1\<rparr>"
    let ?f = "compute_hash E ?h Sha512"
    let ?s3 = "extend_pool ?f ?s2"
    have ih: "prefix (entropy_pool ?s3) (entropy_pool (fill_pool E ?f ?s3))
        \<and> entropy_lock (fill_pool E ?f ?s3) = entropy_lock ?s3
        \<and> ENTROPY_POOL_SIZE \<le> length (entropy_pool (fill_pool E ?f ?s3))"
      using 1 [OF True refl refl refl refl refl] .
    have step: "fill_pool E final_entropy s = fill_pool E ?f ?s3"
      using True by (subst fill_pool.simps) (simp add: Let_def)
    have "prefix (entropy_pool s) (entropy_pool ?s3)" "entropy_lock ?s3 = entropy_lock s"
      by (simp_all add: extend_pool_def snd_os_urandom)
    then show ?thesis
      using ih step by (auto intro: prefix_order.trans)
  qed
qed

lemma refresh_try_free:
  assumes "entropy_lock s = None"
  shows "(\<exists>e. system_noise E = Inl e \<and> refresh_try E t s = Raise e s)
       \<or> (\<exists>s'. refresh_try E t s = Return () s'
              \<and> prefix (entropy_pool s) (entropy_pool s') \<and> entropy_lock s' = None
              \<and> ENTROPY_POOL_SIZE \<le> length (entropy_pool s'))"
proof (cases "system_noise E")
  case (Inl e)
  then show ?thesis
    by (simp add: refresh_try_def collect_system_entropy_def)
next
  case (Inr noise)
  let ?sys = "noise @ fst (os_urandom E 256 s)"
  let ?s1 = "snd (os_urandom E 256 s)"
  let ?s2 = "?s1\<lparr>entropy_lock := Some t\<rparr>"
  let ?r = "fst (os_urandom E 32 ?s2)"
  let ?s3 = "snd (os_urandom E 32 ?s2)"
  let ?s4 = "release (extend_pool (compute_hash E (?sys @ ?r) Sha512) ?s3)"
  have c: "collect_system_entropy E s = Return ?sys ?s1"
    using Inr by (simp add: collect_system_entropy_def split_def)
  have free1: "entropy_lock ?s1 = None"
    using assms by (simp add: snd_os_urandom)
  have a1: "acquire t ?s1 = Return () ?s2"
    using free1 by (rule acquire_free)
  have free4: "entropy_lock ?s4 = None"
    by (simp add: release_def)
  have p4: "prefix (entropy_pool s) (entropy_pool ?s4)"
    by (simp add: release_def extend_pool_def snd_os_urandom)
  have "\<exists>a s5. collect_video_entropy E t ?sys ?s4 = Return a s5
              \<and> prefix (entropy_pool ?s4) (entropy_pool s5) \<and> entropy_lock s5 = None"
  proof (cases "video_runs E \<noteq> []")
    case True
    then show ?thesis
      using process_videos_free [OF free4, of E t "video_runs E" ?sys]
      by (simp add: collect_video_entropy_def)
  next
    case False
    then show ?thesis
      using free4 by (simp add: collect_video_entropy_def split_def snd_os_urandom)
  qed
  then obtain a s5 where
    v: "collect_video_entropy E t ?sys ?s4 = Return a s5"
    and p5: "prefix (entropy_pool ?s4) (entropy_pool s5)" and free5: "entropy_lock s5 = None"
    by blast
  let ?f = "compute_hash E (a @ timestamp E) Sha512"
  let ?s6 = "s5\<lparr>entropy_lock := Some t\<rparr>"
  let ?s7 = "fill_pool E ?f (extend_pool ?f ?s6)"
  let ?s8 = "release (?s7\<lparr>last_refresh_time := clock ?s7\<rparr>)"
  have a5: "acquire t s5 = Return () ?s6"
    using free5 by (rule acquire_free)
  have r: "refresh_try E t s = Return () ?s8"
    unfolding refresh_try_def c using a1 v a5 by (simp add: split_def Let_def)
  have "prefix (entropy_pool s5) (entropy_pool (extend_pool ?f ?s6))"
    by (simp add: extend_pool_def)
  then have p7: "prefix (entropy_pool s5) (entropy_pool ?s7)"
    using fill_pool_grows [of "extend_pool ?f ?s6" E ?f] by (auto intro: prefix_order.trans)
  have "prefix (entropy_pool s) (entropy_pool ?s8)"
    using p4 p5 p7 by (auto simp: release_def intro: prefix_order.trans)
  moreover have "ENTROPY_POOL_SIZE \<le> length (entropy_pool ?s8)"
    using fill_pool_grows [of "extend_pool ?f ?s6" E ?f] by (simp add: release_def)
  moreover have "entropy_lock ?s8 = None"
    by (simp add: release_def)
  ultimately show ?thesis
    using r by blast
qed

lemma refresh_entropy_pool_free:
  assumes "entropy_lock s = None"
  shows "\<exists>s'. refresh_entropy_pool E t s = Return () s'
           \<and> prefix (entropy_pool s) (entropy_pool s') \<and> entropy_lock s' = None
           \<and> (case system_noise E of
                 Inl e \<Rightarrow> length (entropy_pool s') = length (entropy_pool s) + 10240
               | Inr noise \<Rightarrow> ENTROPY_POOL_SIZE \<le> length (entropy_pool s'))"
proof -
  let ?s0 = "logger RefreshingPool s"
  have free0: "entropy_lock ?s0 = None" and pool0: "entropy_pool ?s0 = entropy_pool s"
    using assms by (simp_all add: logger_def)
  from refresh_try_free [OF free0, of E t]
  show ?thesis
  proof (elim disjE exE conjE)
    fix e
    assume n: "system_noise E = Inl e" and r: "refresh_try E t ?s0 = Raise e ?s0"
    let ?s2 = "?s0\<lparr>entropy_lock := Some t\<rparr>"
    let ?em = "fst (os_urandom E (1024 * 10) ?s2)"
    let ?s3 = "snd (os_urandom E (1024 * 10) ?s2)"
    let ?s4 = "extend_pool ?em ?s3"
    let ?s5 = "release (logger (EmergencyEntropyAdded (1024 * 10)) (?s4\<lparr>last_refresh_time := clock ?s4\<rparr>))"
    have "acquire t ?s0 = Return () ?s2"
      using free0 by (rule acquire_free)
    then have "refresh_entropy_pool E t s = Return () ?s5"
      using r by (simp add: refresh_entropy_pool_def split_def Let_def)
    moreover have "entropy_pool ?s5 = entropy_pool s @ ?em"
      by (simp add: release_def logger_def extend_pool_def snd_os_urandom)
    moreover have "entropy_lock ?s5 = None"
      by (simp add: release_def)
    ultimately show ?thesis
      using n by (simp add: length_os_urandom)
  next
    fix s'
    assume "refresh_try E t ?s0 = Return () s'" "prefix (entropy_pool ?s0) (entropy_pool s')"
      "entropy_lock s' = None" "ENTROPY_POOL_SIZE \<le> length (entropy_pool s')"
    moreover have "\<exists>noise. system_noise E = Inr noise"
      using calculation(1) by (cases "system_noise E")
        (simp_all add: refresh_try_def collect_system_entropy_def)
    ultimately show ?thesis
      using pool0 by (auto simp: refresh_entropy_pool_def)
  qed
qed

lemma initial_refresh_only_appends:
  assumes "entropy_lock s = None"
  shows "\<exists>s'. initial_refresh E s = Return () s'
           \<and> prefix (entropy_pool s) (entropy_pool s') \<and> \<not> refresh_in_progress s'
           \<and> entropy_lock s' = None"
  using refresh_entropy_pool_free [OF assms, of E InitialRefreshThread]
  by (auto simp: initial_refresh_def)

section \<open>What the endpoint can return\<close>

lemma seed_from_pool_returns:
  "\<exists>h s'. seed_from_pool E sz x s = Return h s'"
proof (cases "pool_take sz s")
  case None
  then show ?thesis
    by (simp add: seed_from_pool_depleted)
next
  case (Some a)
  then show ?thesis
    using seed_from_pool_taken [of sz s "fst a" "snd a" E x] by auto
qed

lemma generate_entropy_seed_never_raises:
  "generate_entropy_seed E t sz x s \<noteq> Raise e s'"
proof (cases "entropy_lock s")
  case (Some owner)
  then show ?thesis
    by (simp add: generate_entropy_seed_def acquire_held)
next
  case None
  show ?thesis
  proof (cases "refresh_needed sz s")
    case True
    then show ?thesis
      by (simp add: generate_entropy_seed_deadlock [OF None])
  next
    case False
    obtain h s3 where "seed_from_pool E sz x (s\<lparr>entropy_lock := Some t\<rparr>) = Return h s3"
      using seed_from_pool_returns by blast
    then show ?thesis
      by (simp add: generate_entropy_seed_fresh [OF None False])
  qed
qed

lemma request_size_dict:
  assumes "request_size E req = Inr n"
  obtains kvs where "request_data req = JDict kvs"
  using assms by (cases "request_data req") (simp_all add: request_size_def dict_get_def)

lemma fast_path_raises:
  assumes "fast_path E n ce s = Raise e s'"
  shows "n < 0"
proof (rule ccontr)
  assume "\<not> n < 0"
  then have "0 \<le> n" by simp
  from fast_path_returns [OF this, of E ce s]
  obtain r f where "\<forall>pool. fast_path E n ce (s\<lparr>entropy_pool := pool\<rparr>)
      = Return r ((f s)\<lparr>entropy_pool := pool\<rparr>)"
    by blast
  then have "fast_path E n ce (s\<lparr>entropy_pool := entropy_pool s\<rparr>)
      = Return r ((f s)\<lparr>entropy_pool := entropy_pool s\<rparr>)"
    by blast
  then show False
    using assms by simp
qed

lemma serve_seed_raises:
  assumes "serve_seed E req n s = Raise e s'" "request_size E req = Inr n"
  shows "n < 0"
proof -
  obtain kvs where d: "request_data req = JDict kvs"
    using assms(2) by (rule request_size_dict)
  obtain ce where ce: "dict_get (request_data req) ''clientEntropy'' JNull = Inr ce"
    using dict_get_dict [of kvs "''clientEntropy''" JNull] d by auto
  obtain p where p: "dict_get (request_data req) ''purpose'' (JStr ''general'') = Inr p"
    using dict_get_dict [of kvs "''purpose''" "JStr ''general''"] d by auto
  show ?thesis
  proof (cases "p \<in> set critical_purposes \<and> refresh_in_progress s")
    case True
    then have "fast_path E n ce s = Raise e s'"
      using assms(1) ce p by (simp add: serve_seed_def)
    then show ?thesis
      by (rule fast_path_raises)
  next
    case False
    then have "(case generate_entropy_seed E RequestThread n ce s of
                  Raise e s1 \<Rightarrow> Raise e s1
                | Blocked s1 \<Rightarrow> Blocked s1
                | Return seed_hex s1 \<Rightarrow> Return (seed_response E req seed_hex) s1)
               = Raise e s'"
      using assms(1) ce p by (auto simp: serve_seed_def)
    then show ?thesis
      using generate_entropy_seed_never_raises [of E RequestThread n ce s]
      by (cases "generate_entropy_seed E RequestThread n ce s") auto
  qed
qed

lemma serve_seed_no_fallback:
  assumes "serve_seed E req n s = Return r s'"
  shows "\<not> fallback r"
  using assms
  by (auto simp: serve_seed_def fast_path_def seed_response_def Let_def
           split: sum.splits if_splits outcome.splits prod.splits)

lemma get_seed_never_falls_back:
  assumes "get_seed E req s = Return r s'"
  shows "\<not> fallback r"
proof (cases "request_size E req")
  case (Inl e)
  then show ?thesis
    using assms by (simp add: get_seed_def fallback_response_def)
next
  case (Inr n)
  show ?thesis
  proof (cases "serve_seed E req n s")
    case (Return r1 s1)
    then show ?thesis
      using assms Inr serve_seed_no_fallback [of E req n s r1 s1] by (simp add: get_seed_def)
  next
    case (Raise e s1)
    then have "n < 0"
      using Inr by (rule serve_seed_raises)
    then show ?thesis
      using assms Inr Raise by (simp add: get_seed_def fallback_response_def py_urandom_def)
  next
    case (Blocked s1)
    then show ?thesis
      using assms Inr by (simp add: get_seed_def)
  qed
qed

lemma py_take_digest:
  "0 \<le> n \<Longrightarrow> length (py_take n (sha256 H data)) = min (nat n) 32"
  by (simp add: py_take_def min.commute)

lemma seed_from_pool_length:
  assumes "0 \<le> sz" "seed_from_pool E sz x s = Return h s'"
  shows "length h = 2 * min (nat sz) 32"
proof (cases "pool_take sz s")
  case None
  then show ?thesis
    using assms by (auto simp: seed_from_pool_depleted py_take_digest)
next
  case (Some a)
  then show ?thesis
    using assms seed_from_pool_taken [of sz s "fst a" "snd a" E x]
    by (auto simp: py_take_def min.commute)
qed

lemma fast_path_length:
  assumes "0 \<le> n" "fast_path E n ce s = Return r s'"
  shows "length (seed r) = 2 * min (nat n) 32"
  using assms
  by (auto simp: fast_path_def Let_def py_take_digest
           split: sum.splits if_splits outcome.splits prod.splits)

lemma get_seed_length:
  assumes "request_size E req = Inr n" "0 \<le> n" "get_seed E req s = Return r s'"
  shows "length (seed r) = 2 * min (nat n) 32"
proof -
  obtain kvs where d: "request_data req = JDict kvs"
    using assms(1) by (rule request_size_dict)
  obtain ce where ce: "dict_get (request_data req) ''clientEntropy'' JNull = Inr ce"
    using dict_get_dict [of kvs "''clientEntropy''" JNull] d by auto
  obtain p where p: "dict_get (request_data req) ''purpose'' (JStr ''general'') = Inr p"
    using dict_get_dict [of kvs "''purpose''" "JStr ''general''"] d by auto
  have "serve_seed E req n s = Return r s'"
    using assms serve_seed_raises [of E req n s]
    by (cases "serve_seed E req n s") (auto simp: get_seed_def)
  then show ?thesis
  proof (cases "p \<in> set critical_purposes \<and> refresh_in_progress s")
    case True
    then have "fast_path E n ce s = Return r s'"
      using \<open>serve_seed E req n s = Return r s'\<close> ce p by (simp add: serve_seed_def)
    then show ?thesis
      using assms(2) by (rule fast_path_length [rotated])
  next
    case False
    then obtain h s1 where g: "generate_entropy_seed E RequestThread n ce s = Return h s1"
      and r: "seed r = h"
      using \<open>serve_seed E req n s = Return r s'\<close> ce p
      by (cases "generate_entropy_seed E RequestThread n ce s")
         (auto simp: serve_seed_def seed_response_def Let_def)
    have "\<exists>s2 s3. seed_from_pool E n ce s2 = Return h s3"
      using g
      by (auto simp: generate_entropy_seed_def acquire_def refresh_entropy_pool_held
               split: option.splits if_splits outcome.splits)
    then show ?thesis
      using assms(2) r seed_from_pool_length by blast
  qed
qed

section \<open>Mixing client entropy\<close>

lemma length_concat_replicate: "length (concat (replicate k c)) = k * length c"
  by (induction k) simp_all

lemma concat_replicate_nth:
  "i < k * length c \<Longrightarrow> concat (replicate k c) ! i = c ! (i mod length c)"
proof (induction k arbitrary: i)
  case 0
  then show ?case by simp
next
  case (Suc k)
  show ?case
  proof (cases "i < length c")
    case True
    then show ?thesis by (simp add: nth_append)
  next
    case False
    then have "i - length c < k * length c"
      using Suc.prems by simp
    then have "concat (replicate k c) ! (i - length c) = c ! ((i - length c) mod length c)"
      by (rule Suc.IH)
    then show ?thesis
      using False by (simp add: nth_append le_mod_geq)
  qed
qed

lemma mix_extra_entropy_wraps:
  assumes hex: "fromhex x = Some c" and pos: "0 < length c"
    and short: "int (length c) < sz" and len: "length sb = nat sz"
  shows "\<exists>m. mix_extra_entropy sz sb x = Inr m \<and> length m = nat sz
           \<and> (\<forall>i<nat sz. m ! i = sb ! i XOR c ! (i mod length c))"
proof -
  define k where "k = nat (sz div int (length c) + 1)"
  define rep where "rep = py_repeat c (sz div int (length c) + 1)"
  have rep: "rep = concat (replicate k c)"
    by (simp add: rep_def py_repeat_def k_def)
  have "sz div int (length c) = int (nat sz div length c)"
    using short by (simp add: zdiv_int)
  then have k: "k = nat sz div length c + 1"
    by (simp add: k_def)
  have "nat sz < length c + (nat sz div length c) * length c"
    using pos by (rule dividend_less_div_times)
  then have enough: "nat sz < k * length c"
    by (simp add: k)
  have m: "mix_extra_entropy sz sb x = Inr (map2 (\<lambda>a b. a XOR b) sb (take (nat sz) rep))"
    using hex pos short by (simp add: mix_extra_entropy_def rep_def py_take_def Let_def)
  have l: "length (take (nat sz) rep) = nat sz"
    using enough by (simp add: rep length_concat_replicate)
  have "\<forall>i<nat sz. map2 (\<lambda>a b. a XOR b) sb (take (nat sz) rep) ! i
          = sb ! i XOR c ! (i mod length c)"
  proof (intro allI impI)
    fix i
    assume i: "i < nat sz"
    then have "i < k * length c"
      using enough by simp
    then have "rep ! i = c ! (i mod length c)"
      unfolding rep by (rule concat_replicate_nth)
    then show "map2 (\<lambda>a b. a XOR b) sb (take (nat sz) rep) ! i = sb ! i XOR c ! (i mod length c)"
      using i len l by simp
  qed
  then show ?thesis
    using m l len by simp
qed

lemma foldl_list_update:
  "k \<le> length xs \<Longrightarrow> foldl (\<lambda>m i. m[i := f i]) xs [0..<k] = map f [0..<k] @ drop k xs"
proof (induction k)
  case 0
  then show ?case by simp
next
  case (Suc k)
  then have k: "k < length xs" by simp
  have "foldl (\<lambda>m i. m[i := f i]) xs [0..<Suc k] = (map f [0..<k] @ drop k xs)[k := f k]"
    using Suc by simp
  also have "\<dots> = map f [0..<k] @ (drop k xs)[0 := f k]"
    by (simp add: list_update_append)
  also have "drop k xs = xs ! k # drop (Suc k) xs"
    using k by (simp add: Cons_nth_drop_Suc)
  finally show ?case
    by simp
qed

lemma mix_client_bytes_nth:
  assumes hex: "fromhex x = Some c" and nonneg: "0 \<le> n"
  shows "\<exists>m. mix_client_bytes n e (JStr x) = Inr m \<and> length m = nat n
           \<and> (\<forall>i<nat n. m ! i = (if i < length c then e ! i XOR c ! i else 0))"
proof -
  let ?k = "min (length c) (nat n)"
  let ?f = "\<lambda>i. e ! i XOR c ! (i mod length c)"
  let ?m = "map ?f [0..<?k] @ drop ?k (replicate (nat n) (0::byte))"
  have "foldl (\<lambda>m i. m[i := ?f i]) (replicate (nat n) 0) [0..<?k] = ?m"
    by (rule foldl_list_update) simp
  then have m: "mix_client_bytes n e (JStr x) = Inr ?m"
    using hex nonneg by (simp add: mix_client_bytes_def)
  have "\<forall>i<nat n. ?m ! i = (if i < length c then e ! i XOR c ! i else 0)"
    by (auto simp: nth_append)
  moreover have "length ?m = nat n"
    by simp
  ultimately show ?thesis
    using m by blast
qed

section \<open>The two paths of the endpoint\<close>

lemma mix_client_bytes_long:
  assumes hex: "fromhex x = Some c" and nonneg: "0 \<le> n"
    and long: "nat n \<le> length c" and len: "length e = nat n"
  shows "mix_client_bytes n e (JStr x) = Inr (map2 (\<lambda>a b. a XOR b) e (take (nat n) c))"
proof -
  obtain m where m: "mix_client_bytes n e (JStr x) = Inr m" and lm: "length m = nat n"
    and nth: "\<forall>i<nat n. m ! i = (if i < length c then e ! i XOR c ! i else 0)"
    using mix_client_bytes_nth [OF hex nonneg, of e] by blast
  have "m = map2 (\<lambda>a b. a XOR b) e (take (nat n) c)"
  proof (rule nth_equalityI)
    show "length m = length (map2 (\<lambda>a b. a XOR b) e (take (nat n) c))"
      using lm len long by simp
  next
    fix i
    assume "i < length m"
    then have i: "i < nat n" using lm by simp
    then show "m ! i = map2 (\<lambda>a b. a XOR b) e (take (nat n) c) ! i"
      using nth len long by simp
  qed
  then show ?thesis using m by simp
qed

lemma fast_path_unfold:
  assumes "0 \<le> n"
  shows "fast_path E n ce s =
     (let rnd = map (urandom_tape E) [urandom_pos s..<urandom_pos s + nat n];
          s1 = (logger FastPathRequest s)\<lparr>urandom_pos := urandom_pos s + nat n\<rparr>;
          pre = (if truthy ce then
                   (case mix_client_bytes n rnd ce of Inl e \<Rightarrow> rnd | Inr mixed \<Rightarrow> mixed)
                 else rnd);
          s2 = (if truthy ce then
                   (case mix_client_bytes n rnd ce of
                      Inl e \<Rightarrow> logger (ClientEntropyFailed e) s1 | Inr mixed \<Rightarrow> s1)
                 else s1)
      in Return \<lparr>seed = hex (py_take n (sha256 (H256 E) pre)),
                 signature = hex (sha256 (H256 E) (py_take n (sha256 (H256 E) pre))),
                 prefetchDuringRefresh = True, fallback = False, error_of = None\<rparr> s2)"
  using assms
  by (auto simp: fast_path_def py_urandom_def os_urandom_def logger_def Let_def split: sum.splits)

lemma incorporate_fst:
  "fst (incorporate_client_entropy sz sb x s) = fst (incorporate_client_entropy sz sb x s')"
  by (simp add: incorporate_client_entropy_def split: json.splits sum.splits)

lemma incorporate_urandom_pos:
  "urandom_pos (snd (incorporate_client_entropy sz sb x s)) = urandom_pos s"
  by (simp add: incorporate_client_entropy_def logger_def split: json.splits sum.splits)


lemma generate_entropy_seed_taken:
  assumes free: "entropy_lock s = None" and nr: "\<not> refresh_needed n s"
    and enough: "n \<le> int (length (entropy_pool s))"
  shows "\<exists>s'. generate_entropy_seed E t n x s
             = Return (hex (py_take n (sha256 (H256 E)
                  (fst (incorporate_client_entropy n (py_take n (entropy_pool s)) x s)
                   @ map (urandom_tape E) [urandom_pos s..<urandom_pos s + 32])))) s'
           \<and> entropy_pool s' = py_drop n (entropy_pool s)
           \<and> entropy_lock s' = None"
proof -
  let ?s1 = "s\<lparr>entropy_lock := Some t\<rparr>"
  let ?sb = "py_take n (entropy_pool s)"
  let ?s2 = "?s1\<lparr>entropy_pool := py_drop n (entropy_pool s)\<rparr>"
  let ?i = "incorporate_client_entropy n ?sb x ?s2"
  have take: "pool_take n ?s1 = Some (?sb, ?s2)"
    using enough by (simp add: pool_take_def)
  have sp: "seed_from_pool E n x ?s1
      = Return (hex (py_take n (sha256 (H256 E) (fst ?i @ fst (os_urandom E 32 (snd ?i))))))
          (snd (os_urandom E 32 (snd ?i)))"
    using take by (simp add: seed_from_pool_def split_def)
  have r: "fst (os_urandom E 32 (snd ?i)) = map (urandom_tape E) [urandom_pos s..<urandom_pos s + 32]"
    by (simp add: os_urandom_def incorporate_urandom_pos)
  have f: "fst ?i = fst (incorporate_client_entropy n ?sb x s)"
    by (rule incorporate_fst)
  have "generate_entropy_seed E t n x s
      = Return (hex (py_take n (sha256 (H256 E) (fst ?i @ fst (os_urandom E 32 (snd ?i))))))
          (release (snd (os_urandom E 32 (snd ?i))))"
    using generate_entropy_seed_fresh [OF free nr, of E t x] sp by simp
  moreover have "entropy_pool (release (snd (os_urandom E 32 (snd ?i)))) = py_drop n (entropy_pool s)"
    using incorporate_keeps(1) [of n ?sb x ?s2] by (simp add: release_def snd_os_urandom)
  moreover have "entropy_lock (release (snd (os_urandom E 32 (snd ?i)))) = None"
    by (simp add: release_def)
  ultimately show ?thesis
    using r f by simp
qed

lemma serve_seed_standard:
  assumes ce: "dict_get (request_data req) ''clientEntropy'' JNull = Inr ce"
    and p: "dict_get (request_data req) ''purpose'' (JStr ''general'') = Inr p"
    and standard: "\<not> (p \<in> set critical_purposes \<and> refresh_in_progress s)"
    and g: "generate_entropy_seed E RequestThread n ce s = Return h s'"
  shows "serve_seed E req n s = Return (seed_response E req h) s'"
  using assms by (auto simp: serve_seed_def)

lemma standard_request:
  assumes sz: "request_size E req = Inr n"
    and p: "dict_get (request_data req) ''purpose'' (JStr ''general'') = Inr p"
    and standard: "\<not> (p \<in> set critical_purposes \<and> refresh_in_progress s)"
    and free: "entropy_lock s = None" and nr: "\<not> refresh_needed n s"
    and enough: "n \<le> int (length (entropy_pool s))"
  shows "\<exists>r s'. get_seed E req s = Return r s'
           \<and> entropy_pool s' = py_drop n (entropy_pool s)
           \<and> length (seed r) = 2 * length (py_take n (replicate 32 (0::byte)))"
proof -
  obtain kvs where d: "request_data req = JDict kvs"
    using p by (rule data_is_dict)
  obtain ce where ce: "dict_get (request_data req) ''clientEntropy'' JNull = Inr ce"
    using dict_get_dict [of kvs "''clientEntropy''" JNull] d by auto
  obtain s' where g: "generate_entropy_seed E RequestThread n ce s
             = Return (hex (py_take n (sha256 (H256 E)
                  (fst (incorporate_client_entropy n (py_take n (entropy_pool s)) ce s)
                   @ map (urandom_tape E) [urandom_pos s..<urandom_pos s + 32])))) s'"
    and pool: "entropy_pool s' = py_drop n (entropy_pool s)"
    using generate_entropy_seed_taken [OF free nr enough, of E RequestThread ce] by blast
  let ?h = "hex (py_take n (sha256 (H256 E)
                  (fst (incorporate_client_entropy n (py_take n (entropy_pool s)) ce s)
                   @ map (urandom_tape E) [urandom_pos s..<urandom_pos s + 32])))"
  have "serve_seed E req n s = Return (seed_response E req ?h) s'"
    using ce p standard g by (rule serve_seed_standard)
  then have "get_seed E req s = Return (seed_response E req ?h) s'"
    using sz by (simp add: get_seed_def)
  moreover have "length (seed (seed_response E req ?h)) = 2 * length (py_take n (replicate 32 (0::byte)))"
    by (simp add: seed_response_def py_take_def min.commute)
  ultimately show ?thesis
    using pool by blast
qed

lemma upt_0_4: "[0..<4] = [0, 1, 2, 3]"
  by (simp add: numeral_eq_Suc)

section \<open>The claims\<close>

lemmas run_defs =
  get_seed_def request_size_def request_data_def post_def dict_get_def py_int_def
  serve_seed_def critical_purposes_def started_def generate_entropy_seed_def acquire_def
  refresh_needed_def REFRESH_INTERVAL_def seed_from_pool_def pool_take_def py_take_def
  py_drop_def incorporate_client_entropy_def os_urandom_def py_urandom_def release_def
  demo_env_def API_KEYS_def fast_path_def fallback_response_def logger_def seed_response_def
  refresh_entropy_pool_def refresh_try_def collect_system_entropy_def Let_def

text \<open>
  Claim C1: for every valid size in [1,128] the standard path, the pool-depleted path and
  the fast path return a seed of exactly \<open>size\<close> bytes, a hex string of \<open>2 * size\<close>
  characters. The code cuts a 32-byte SHA-256 digest with \<^verbatim>\<open>[:size]\<close>, so a size
  above 32 gives 32 bytes (\<open>get_seed_length\<close>, \<open>seed_from_pool_length\<close>): for size 64
  each of the three paths returns 64 hex characters, not 128.
\<close>

theorem seed_of_size_64_has_32_bytes:
  "map_option (\<lambda>r. length (seed r))
     (returned (get_seed demo_env (post [(''size'', JInt 64)]) (started (replicate 1024 0))))
     = Some 64
   \<and> map_option length
       (returned (seed_from_pool demo_env 64 JNull (started (replicate 10 0)))) = Some 64
   \<and> map_option (\<lambda>r. length (seed r))
       (returned (get_seed demo_env (post [(''size'', JInt 64), (''purpose'', JStr ''login'')])
          ((started (replicate 1024 0))\<lparr>refresh_in_progress := True\<rparr>))) = Some 64"
  by (simp add: run_defs)

text \<open>
  Claim C2: seed extraction never invokes a blocking refresh while it holds the pool's
  lock, and every request completes. In the code \<^verbatim>\<open>generate_entropy_seed\<close> calls
  \<^verbatim>\<open>refresh_entropy_pool()\<close> inside \<^verbatim>\<open>with entropy_lock\<close>, and the refresh
  enters \<^verbatim>\<open>with entropy_lock\<close> itself: a request for 32 bytes against a pool of 40
  bytes, or against a pool of 1024 bytes refreshed 301 seconds ago, waits forever for the
  lock its own thread holds.
\<close>

theorem get_seed_waits_for_its_own_lock:
  "get_seed demo_env (post [(''size'', JInt 32)]) (started (replicate 40 0))
     = Blocked ((started (replicate 40 0))
                  \<lparr>entropy_lock := Some RequestThread, urandom_pos := 256,
                   events := [RefreshingPool]\<rparr>)
   \<and> get_seed demo_env (post [(''size'', JInt 32)])
         ((started (replicate 1024 0))\<lparr>clock := 301\<rparr>)
     = Blocked ((started (replicate 1024 0))
                  \<lparr>entropy_lock := Some RequestThread, clock := 301, urandom_pos := 256,
                   events := [RefreshingPool]\<rparr>)"
  by (simp add: run_defs)

text \<open>
  Claim C3: the seed endpoint never fails hard; on any internal error, a malformed size
  included, it answers with a fallback seed and \<open>fallback: true\<close>. In the code the
  handler computes \<^verbatim>\<open>os.urandom(seed_size)\<close>: for \<^verbatim>\<open>{"size": null}\<close> the name
  \<^verbatim>\<open>seed_size\<close> is unbound and the handler raises UnboundLocalError; for size -1 on the
  fast path \<^verbatim>\<open>os.urandom(-1)\<close> raises ValueError in the try block and again in the
  handler. Either way the exception leaves the view.
\<close>

theorem get_seed_handler_raises:
  "get_seed demo_env (post [(''size'', JNull)]) (started (replicate 1024 0))
     = Raise UnboundLocalError ((started (replicate 1024 0))\<lparr>events := [SeedError TypeError]\<rparr>)
   \<and> get_seed demo_env (post [(''size'', JInt (- 1)), (''purpose'', JStr ''login'')])
         ((started (replicate 1024 0))\<lparr>refresh_in_progress := True\<rparr>)
     = Raise ValueError ((started (replicate 1024 0))
          \<lparr>refresh_in_progress := True, events := [FastPathRequest, SeedError ValueError]\<rparr>)"
  by (simp add: run_defs)

text \<open>
  Claim C4: every request with a latency-critical purpose that arrives while a refresh
  is in progress is answered entirely from the secure random source, without taking
  bytes from the pool, and flagged \<open>degraded=true\<close>. On the fast path of the code the
  response has no key \<open>degraded\<close> (its flag is \<^verbatim>\<open>prefetchDuringRefresh\<close>); with
  the random bytes 0, 1, 2, 3 a request of size 4 gets the seed of 00 01 02 03, but with
  the client entropy \<^verbatim>\<open>" "\<close> it gets the seed of 00 00 00 00, which holds nothing of
  the random source; and a request of size -1 gets no response.
\<close>

theorem fast_path_degraded_zeroed_or_raising:
  "map_option (\<lambda>r. ''degraded'' \<in> set (response_keys r))
     (returned (get_seed demo_env (post [(''size'', JInt 4), (''purpose'', JStr ''login'')])
        ((started (replicate 1024 0))\<lparr>refresh_in_progress := True\<rparr>))) = Some False
   \<and> map_option seed
       (returned (get_seed demo_env (post [(''size'', JInt 4), (''purpose'', JStr ''login'')])
          ((started (replicate 1024 0))\<lparr>refresh_in_progress := True\<rparr>)))
     = Some (hex [0, 1, 2, 3])
   \<and> map_option seed
       (returned (get_seed demo_env
          (post [(''size'', JInt 4), (''purpose'', JStr ''login''),
                 (''clientEntropy'', JStr '' '')])
          ((started (replicate 1024 0))\<lparr>refresh_in_progress := True\<rparr>)))
     = Some (hex [0, 0, 0, 0])
   \<and> returned (get_seed demo_env (post [(''size'', JInt (- 1)), (''purpose'', JStr ''login'')])
        ((started (replicate 1024 0))\<lparr>refresh_in_progress := True\<rparr>)) = None"
  by (simp add: run_defs response_keys_def mix_client_bytes_def is_space_def replicate_4
      sha256_def upt_0_4)

text \<open>
  Claim C4 as amended: a request with a latency-critical purpose, whose size is read as
  \<open>n \<ge> 0\<close>, that arrives while a refresh is in progress: it is answered, the pool and
  the lock are as they were, \<open>n\<close> bytes of \<^verbatim>\<open>os.urandom\<close> are used, and the keys
  of the response are those of the fast path, \<^verbatim>\<open>prefetchDuringRefresh\<close> among them.
  Without client entropy, or with client entropy that is not a string of hexadecimal
  digits, the seed is the SHA-256 digest of the \<open>n\<close> random bytes, cut to \<open>n\<close> bytes;
  with client entropy of at least \<open>n\<close> bytes it is the digest of the random bytes XORed
  with the first \<open>n\<close> client bytes, cut to \<open>n\<close> bytes.
\<close>

theorem fast_path_seed_from_urandom:
  assumes sz: "request_size E req = Inr n" and nonneg: "0 \<le> n"
    and purpose: "dict_get (request_data req) ''purpose'' (JStr ''general'') = Inr p"
    and critical: "p \<in> set critical_purposes"
    and refreshing: "refresh_in_progress s"
    and client: "dict_get (request_data req) ''clientEntropy'' JNull = Inr ce"
  shows "\<exists>r s'. get_seed E req s = Return r s'
           \<and> entropy_pool s' = entropy_pool s
           \<and> entropy_lock s' = entropy_lock s
           \<and> urandom_pos s' = urandom_pos s + nat n
           \<and> response_keys r
               = [''seed'', ''timestamp'', ''signature'', ''requestId'', ''prefetchDuringRefresh'']
           \<and> (\<not> truthy ce \<or> (\<forall>x. ce \<noteq> JStr x) \<or> (\<exists>x. ce = JStr x \<and> fromhex x = None) \<longrightarrow>
                 seed r = hex (py_take n (sha256 (H256 E)
                     (map (urandom_tape E) [urandom_pos s..<urandom_pos s + nat n]))))
           \<and> (\<forall>x c. ce = JStr x \<and> fromhex x = Some c \<and> nat n \<le> length c \<longrightarrow>
                 seed r = hex (py_take n (sha256 (H256 E)
                     (map2 (\<lambda>a b. a XOR b)
                        (map (urandom_tape E) [urandom_pos s..<urandom_pos s + nat n])
                        (take (nat n) c)))))"
proof -
  let ?rnd = "map (urandom_tape E) [urandom_pos s..<urandom_pos s + nat n]"
  let ?s1 = "(logger FastPathRequest s)\<lparr>urandom_pos := urandom_pos s + nat n\<rparr>"
  let ?pre = "if truthy ce then
                (case mix_client_bytes n ?rnd ce of Inl e \<Rightarrow> ?rnd | Inr mixed \<Rightarrow> mixed)
              else ?rnd"
  let ?s2 = "if truthy ce then
                (case mix_client_bytes n ?rnd ce of
                   Inl e \<Rightarrow> logger (ClientEntropyFailed e) ?s1 | Inr mixed \<Rightarrow> ?s1)
              else ?s1"
  let ?r = "\<lparr>seed = hex (py_take n (sha256 (H256 E) ?pre)),
             signature = hex (sha256 (H256 E) (py_take n (sha256 (H256 E) ?pre))),
             prefetchDuringRefresh = True, fallback = False, error_of = None\<rparr>"
  have "serve_seed E req n s = fast_path E n ce s"
    using client purpose critical refreshing by (simp add: serve_seed_def)
  then have g: "get_seed E req s = Return ?r ?s2"
    using sz fast_path_unfold [OF nonneg, of E ce s] by (simp add: get_seed_def Let_def)
  have st: "entropy_pool ?s2 = entropy_pool s" "entropy_lock ?s2 = entropy_lock s"
    "urandom_pos ?s2 = urandom_pos s + nat n"
    by (simp_all add: logger_def split: sum.splits)
  have keys: "response_keys ?r
      = [''seed'', ''timestamp'', ''signature'', ''requestId'', ''prefetchDuringRefresh'']"
    by (simp add: response_keys_def)
  have plain: "\<not> truthy ce \<or> (\<forall>x. ce \<noteq> JStr x) \<or> (\<exists>x. ce = JStr x \<and> fromhex x = None) \<longrightarrow>
      seed ?r = hex (py_take n (sha256 (H256 E) ?rnd))"
    by (cases ce) (auto simp: mix_client_bytes_def)
  have mixed: "\<forall>x c. ce = JStr x \<and> fromhex x = Some c \<and> nat n \<le> length c \<longrightarrow>
      seed ?r = hex (py_take n (sha256 (H256 E)
                  (map2 (\<lambda>a b. a XOR b) ?rnd (take (nat n) c))))"
  proof (intro allI impI, elim conjE)
    fix x c
    assume ce: "ce = JStr x" and hex: "fromhex x = Some c" and long: "nat n \<le> length c"
    have m: "mix_client_bytes n ?rnd (JStr x) = Inr (map2 (\<lambda>a b. a XOR b) ?rnd (take (nat n) c))"
      using hex nonneg long by (rule mix_client_bytes_long) simp
    show "seed ?r = hex (py_take n (sha256 (H256 E)
                  (map2 (\<lambda>a b. a XOR b) ?rnd (take (nat n) c))))"
    proof (cases "truthy ce")
      case True
      then show ?thesis using ce m by simp
    next
      case False
      then have "x = []" using ce by simp
      then have "c = []" using hex by simp
      then have "nat n = 0" using long by simp
      then show ?thesis using False by simp
    qed
  qed
  show ?thesis
    using g st keys plain mixed by blast
qed

theorem fast_path_seed_from_urandom_witness:
  "map_option seed
     (returned (get_seed demo_env (post [(''size'', JInt 4), (''purpose'', JStr ''login'')])
        ((started (replicate 1024 0))\<lparr>refresh_in_progress := True\<rparr>)))
     = Some (hex (take 4 (sha256 (H256 demo_env) (map (urandom_tape demo_env) [0..<4]))))
   \<and> map_option seed
       (returned (get_seed demo_env
          (post [(''size'', JInt 4), (''purpose'', JStr ''login''),
                 (''clientEntropy'', JStr ''ffffffff'')])
          ((started (replicate 1024 0))\<lparr>refresh_in_progress := True\<rparr>)))
     = Some (hex (take 4 (sha256 (H256 demo_env)
          (map2 (\<lambda>a b. a XOR b) (map (urandom_tape demo_env) [0..<4]) [255, 255, 255, 255]))))
   \<and> entropy_pool (final_state
        (get_seed demo_env (post [(''size'', JInt 4), (''purpose'', JStr ''login'')])
           ((started (replicate 1024 0))\<lparr>refresh_in_progress := True\<rparr>)))
     = replicate 1024 0"
proof -
  let ?s = "(started (replicate 1024 0))\<lparr>refresh_in_progress := True\<rparr>"
  let ?q = "post [(''size'', JInt 4), (''purpose'', JStr ''login'')]"
  let ?c = "post [(''size'', JInt 4), (''purpose'', JStr ''login''),
                  (''clientEntropy'', JStr ''ffffffff'')]"
  have s: "refresh_in_progress ?s" "urandom_pos ?s = 0" "entropy_pool ?s = replicate 1024 0"
    by (simp_all add: started_def)
  have cp: "JStr ''login'' \<in> set critical_purposes" and n: "(0::int) \<le> 4"
    by (simp_all add: critical_purposes_def)
  have q: "request_size demo_env ?q = Inr 4"
    "dict_get (request_data ?q) ''purpose'' (JStr ''general'') = Inr (JStr ''login'')"
    "dict_get (request_data ?q) ''clientEntropy'' JNull = Inr JNull"
    by (simp_all add: request_size_def request_data_def post_def dict_get_def py_int_def)
  have c: "request_size demo_env ?c = Inr 4"
    "dict_get (request_data ?c) ''purpose'' (JStr ''general'') = Inr (JStr ''login'')"
    "dict_get (request_data ?c) ''clientEntropy'' JNull = Inr (JStr ''ffffffff'')"
    by (simp_all add: request_size_def request_data_def post_def dict_get_def py_int_def)
  have hexes: "fromhex ''ffffffff'' = Some [255, 255, 255, 255]"
    by (simp add: is_space_def hex_value_def)
  obtain r1 s1 where a: "get_seed demo_env ?q ?s = Return r1 s1"
    "entropy_pool s1 = entropy_pool ?s"
    "seed r1 = hex (py_take 4 (sha256 (H256 demo_env)
                 (map (urandom_tape demo_env) [urandom_pos ?s..<urandom_pos ?s + nat 4])))"
    using fast_path_seed_from_urandom [OF q(1) n q(2) cp s(1) q(3)] by auto
  obtain r2 s2 where b: "get_seed demo_env ?c ?s = Return r2 s2"
    "\<forall>x c. JStr ''ffffffff'' = JStr x \<and> fromhex x = Some c \<and> nat 4 \<le> length c \<longrightarrow>
       seed r2 = hex (py_take 4 (sha256 (H256 demo_env)
                 (map2 (\<lambda>a b. a XOR b)
                    (map (urandom_tape demo_env) [urandom_pos ?s..<urandom_pos ?s + nat 4])
                    (take (nat 4) c))))"
    using fast_path_seed_from_urandom [OF c(1) n c(2) cp s(1) c(3)] by blast
  have "seed r2 = hex (py_take 4 (sha256 (H256 demo_env)
                 (map2 (\<lambda>a b. a XOR b)
                    (map (urandom_tape demo_env) [urandom_pos ?s..<urandom_pos ?s + nat 4])
                    (take (nat 4) [255, 255, 255, 255]))))"
    using b(2) hexes by simp
  then show ?thesis
    using a b(1) by (simp add: s py_take_def)
qed




text \<open>
  Claim C6: on the standard path and on the fast path, client entropy of \<open>L\<close> bytes,
  \<open>0 < L < size\<close>, is XORed over all \<open>size\<close> base bytes, byte \<open>i\<close> with client byte
  \<open>i mod L\<close>. The standard path does so. The fast path's loop runs over
  \<^verbatim>\<open>range(min(len(client_bytes), seed_size))\<close> only, and \<^verbatim>\<open>mixed_seed\<close> replaces the
  random bytes: with base bytes 1, 2, 3, 4 and the client byte ff the fast path yields
  fe, 00, 00, 00 where the standard path yields fe, fd, fc, fb. At the endpoint, with
  the random bytes 0, 1, 2, 3 and a digest that shows its data, a request of size 4 with
  client entropy ff gets the seed of ff, 00, 00, 00: the random bytes 1, 2, 3 are gone.
\<close>

theorem fast_path_mixing_stops_at_client_length:
  "mix_client_bytes 4 [1, 2, 3, 4] (JStr ''ff'') = Inr [0xFE, 0, 0, 0]
   \<and> mix_extra_entropy 4 [1, 2, 3, 4] ''ff'' = Inr [0xFE, 0xFD, 0xFC, 0xFB]
   \<and> map_option seed
       (returned (get_seed demo_env
          (post [(''size'', JInt 4), (''purpose'', JStr ''login''),
                 (''clientEntropy'', JStr ''ff'')])
          ((started (replicate 1024 0))\<lparr>refresh_in_progress := True\<rparr>)))
     = Some (hex [0xFF, 0, 0, 0])"
  by (simp add: run_defs mix_client_bytes_def mix_extra_entropy_def py_repeat_def
      is_space_def hex_value_def replicate_4 sha256_def)

text \<open>
  Claim C7: every refresh cycle leaves the pool at least as large as before, and on
  failure or timeout an emergency block is appended and the in-progress flag is cleared.
  The scheduler starts the refresh thread and waits for it inside
  \<^verbatim>\<open>with entropy_lock\<close> (line 494), so the refresh thread cannot take the lock and is
  alive when the join times out; the timeout branch then enters \<^verbatim>\<open>with entropy_lock\<close>
  again (line 573) and waits for the lock its own thread holds. From a pool of 100
  bytes: the round never ends, the pool still holds its 100 bytes (no emergency block),
  and the flag is still set.
\<close>

theorem background_timeout_adds_nothing:
  "map_option (\<lambda>s. (entropy_lock s, refresh_in_progress s, entropy_pool s, events s))
     (blocked_in (background_entropy_refresh demo_env (started (replicate 100 0))))
   = Some (Some BackgroundThread, True, replicate 100 0,
           [BackgroundTriggered, RefreshingPool, RefreshHung])"
proof -
  have "background_entropy_refresh demo_env (started (replicate 100 0))
      = Blocked (hung_state demo_env (started (replicate 100 0)))"
    by (rule background_refresh_deadlock) (simp_all add: started_def ENTROPY_POOL_SIZE_def)
  then show ?thesis
    by (simp add: hung_state_fields) (simp add: started_def)
qed

text \<open>
  Claim C8: extraction triggers a synchronous refresh only when the pool is below
  \<open>2 * size\<close>; a pool that is only stale is left to the background scheduler. The
  test of line 332 is a disjunction: a pool of 1024 bytes, refreshed 301 seconds ago,
  gets a synchronous refresh for a request of 32 bytes.
\<close>

theorem sync_refresh_when_only_stale:
  "64 \<le> length (entropy_pool ((started (replicate 1024 0))\<lparr>clock := 301\<rparr>))
   \<and> count_list (events (final_state (generate_entropy_seed demo_env RequestThread 32 JNull
         ((started (replicate 1024 0))\<lparr>clock := 301\<rparr>)))) RefreshingPool = 1"
proof -
  have "generate_entropy_seed demo_env RequestThread 32 JNull
          ((started (replicate 1024 0))\<lparr>clock := 301\<rparr>)
      = Blocked (waiting_state demo_env
          ((started (replicate 1024 0))\<lparr>clock := 301, entropy_lock := Some RequestThread\<rparr>))"
    by (rule generate_entropy_seed_deadlock)
       (simp_all add: started_def refresh_needed_def REFRESH_INTERVAL_def)
  then show ?thesis
    by (simp add: started_def)
qed

text \<open>
  Claim C8 as amended: extraction triggers a synchronous refresh exactly when the pool
  is below \<open>2 * size\<close> or stale (the last refresh is more than 300 seconds old). For an
  extraction that enters with the lock free, the log gains one line of
  \<^verbatim>\<open>refresh_entropy_pool()\<close> in that case and none otherwise.
\<close>

theorem sync_refresh_when_low_or_stale:
  assumes "entropy_lock s = None"
  shows "count_list (events (final_state (generate_entropy_seed E t sz x s))) RefreshingPool
       = count_list (events s) RefreshingPool
         + (if int (length (entropy_pool s)) < sz * 2 \<or> clock s - last_refresh_time s > 300
            then 1 else 0)"
proof (cases "refresh_needed sz s")
  case True
  then show ?thesis
    using generate_entropy_seed_deadlock [OF assms True, of E t x]
    by (simp add: refresh_needed_def REFRESH_INTERVAL_def)
next
  case False
  have "count_list (events (final_state (generate_entropy_seed E t sz x s))) RefreshingPool
      = count_list (events (final_state (seed_from_pool E sz x (s\<lparr>entropy_lock := Some t\<rparr>)))) RefreshingPool"
    unfolding generate_entropy_seed_fresh [OF assms False]
    by (cases "seed_from_pool E sz x (s\<lparr>entropy_lock := Some t\<rparr>)") (simp_all add: release_def)
  then show ?thesis
    using False by (simp add: seed_from_pool_events refresh_needed_def REFRESH_INTERVAL_def)
qed

theorem sync_refresh_when_low_or_stale_witness:
  "count_list (events (final_state (generate_entropy_seed demo_env RequestThread 32 JNull
      (started (replicate 10 0))))) RefreshingPool = 1
   \<and> count_list (events (final_state (generate_entropy_seed demo_env RequestThread 32 JNull
      (started (replicate 1024 0))))) RefreshingPool = 0"
proof -
  have "entropy_lock (started (replicate 10 0)) = None"
    by (simp add: started_def)
  from sync_refresh_when_low_or_stale [OF this, of demo_env RequestThread 32 JNull]
  have a: "count_list (events (final_state (generate_entropy_seed demo_env RequestThread 32 JNull
      (started (replicate 10 0))))) RefreshingPool = 1"
    by (simp add: started_def)
  have "entropy_lock (started (replicate 1024 0)) = None"
    by (simp add: started_def)
  from sync_refresh_when_low_or_stale [OF this, of demo_env RequestThread 32 JNull]
  have b: "count_list (events (final_state (generate_entropy_seed demo_env RequestThread 32 JNull
      (started (replicate 1024 0))))) RefreshingPool = 0"
    by (simp add: started_def)
  show ?thesis
    using a b by simp
qed

text \<open>
  Claim C9: a collector buffer of \<open>L\<close> bytes is condensed, if \<open>L\<close> exceeds 10240, to the
  concatenation of the SHA-256 digests of its consecutive 10240-byte chunks, which is
  \<open>32 * \<lceil>L / 10240\<rceil>\<close> bytes and never more than \<open>L\<close>; otherwise to the SHA-256
  digest of the buffer followed by its first 1024 bytes.
\<close>

theorem condense_digests_of_chunks:
  "(10240 < length bs \<longrightarrow>
      condense H bs = concat (map (sha256 H) (consecutive_chunks 10240 bs))
      \<and> length (condense H bs) = 32 * ((length bs + 10239) div 10240)
      \<and> length (condense H bs) \<le> length bs)
   \<and> (length bs \<le> 10240 \<longrightarrow> condense H bs = sha256 H bs @ take 1024 bs)"
proof (intro conjI impI)
  assume big: "10240 < length bs"
  then have c: "condense H bs = hash_chunks H bs"
    by (simp add: condense_def)
  show "condense H bs = concat (map (sha256 H) (consecutive_chunks 10240 bs))"
    using hash_chunks_eq [of H bs] by (simp add: c chunk_size_def)
  show "length (condense H bs) = 32 * ((length bs + 10239) div 10240)"
    by (simp add: c length_hash_chunks num_chunks_ceil)
  show "length (condense H bs) \<le> length bs"
    using num_chunks_bound [OF big] by (simp add: c length_hash_chunks)
next
  assume "length bs \<le> 10240"
  then show "condense H bs = sha256 H bs @ take 1024 bs"
    by (simp add: condense_def py_take_def)
qed

theorem condense_digests_of_chunks_witness:
  "length (condense (H256 demo_env) (replicate 10241 7)) = 64
   \<and> condense (H256 demo_env) [1, 2, 3] = sha256 (H256 demo_env) [1, 2, 3] @ [1, 2, 3]"
proof -
  have big: "10240 < length (replicate 10241 (7::byte))"
    by simp
  have small: "length [1, 2, 3 :: byte] \<le> 10240"
    by simp
  have "length (condense (H256 demo_env) (replicate 10241 7))
      = 32 * ((length (replicate 10241 (7::byte)) + 10239) div 10240)"
    using condense_digests_of_chunks [of "replicate 10241 7" "H256 demo_env"] big by blast
  moreover have "condense (H256 demo_env) [1, 2, 3]
      = sha256 (H256 demo_env) [1, 2, 3] @ take 1024 [1, 2, 3]"
    using condense_digests_of_chunks [of "[1, 2, 3]" "H256 demo_env"] small by blast
  ultimately show ?thesis
    by simp
qed

text \<open>
  Claim C10: the size is clamped from above only; a request with size 0 succeeds with an
  empty seed and the pool unchanged, and a request with size \<open>- k\<close> removes all but the
  last \<open>k\<close> bytes of the pool and returns a seed of \<open>max 0 (32 - k)\<close> bytes. Not every
  such request does: with size -3 on the fast path \<^verbatim>\<open>os.urandom(-3)\<close> raises and the
  pool keeps its bytes, and with size 0 on a pool refreshed 301 seconds ago nothing is
  returned.
\<close>

theorem nonpositive_size_raises_or_blocks:
  "get_seed demo_env (post [(''size'', JInt (- 3)), (''purpose'', JStr ''login'')])
      ((started [1, 2, 3, 4, 5])\<lparr>refresh_in_progress := True\<rparr>)
     = Raise ValueError ((started [1, 2, 3, 4, 5])
          \<lparr>refresh_in_progress := True, events := [FastPathRequest, SeedError ValueError]\<rparr>)
   \<and> returned (get_seed demo_env (post [(''size'', JInt 0)])
         ((started [1, 2, 3, 4, 5])\<lparr>clock := 301\<rparr>)) = None"
  by (simp add: run_defs)

text \<open>
  Claim C10 as amended: the size is clamped from above only: an integer size \<open>n\<close> is
  read as \<open>min n 128\<close>. On the standard path, with the lock free and the pool not stale:
  a request with size 0 returns an empty seed and leaves the pool as it is; a request
  with size \<open>n < 0\<close> removes all but the last \<open>- n\<close> bytes of the pool and returns a
  seed of \<open>max 0 (32 + n)\<close> bytes; a request with size 128 or more, against a pool of
  at least 256 bytes, removes 128 bytes. On the fast path a request with size 0 returns
  an empty seed and leaves the pool as it is.
\<close>

theorem size_clamped_from_above_only:
  assumes size: "dict_get (request_data req) ''size'' (JInt 32) = Inr (JInt n)"
    and purpose: "dict_get (request_data req) ''purpose'' (JStr ''general'') = Inr p"
  shows "request_size E req = Inr (min n 128)
       \<and> (\<not> (p \<in> set critical_purposes \<and> refresh_in_progress s)
            \<and> entropy_lock s = None \<and> clock s - last_refresh_time s \<le> 300 \<longrightarrow>
            (n = 0 \<longrightarrow>
               (\<exists>r s'. get_seed E req s = Return r s'
                  \<and> seed r = [] \<and> entropy_pool s' = entropy_pool s))
          \<and> (n < 0 \<longrightarrow>
               (\<exists>r s'. get_seed E req s = Return r s'
                  \<and> entropy_pool s'
                      = drop (length (entropy_pool s) - nat (- n)) (entropy_pool s)
                  \<and> length (seed r) = 2 * (32 - nat (- n))))
          \<and> (128 \<le> n \<and> 256 \<le> length (entropy_pool s) \<longrightarrow>
               (\<exists>r s'. get_seed E req s = Return r s'
                  \<and> entropy_pool s' = drop 128 (entropy_pool s))))
       \<and> (p \<in> set critical_purposes \<and> refresh_in_progress s \<and> n = 0 \<longrightarrow>
            (\<exists>r s'. get_seed E req s = Return r s'
               \<and> seed r = [] \<and> entropy_pool s' = entropy_pool s))"
proof (intro conjI impI)
  show rs: "request_size E req = Inr (min n 128)"
    using size by (simp add: request_size_def py_int_def)
  {
    assume a: "\<not> (p \<in> set critical_purposes \<and> refresh_in_progress s)
            \<and> entropy_lock s = None \<and> clock s - last_refresh_time s \<le> 300"
    then have standard: "\<not> (p \<in> set critical_purposes \<and> refresh_in_progress s)"
      and free: "entropy_lock s = None" and fresh: "clock s - last_refresh_time s \<le> 300"
      by simp_all
    {
      assume z: "n = 0"
      have "request_size E req = Inr 0" using rs z by simp
      moreover have "\<not> refresh_needed 0 s"
        using fresh by (simp add: refresh_needed_def REFRESH_INTERVAL_def)
      ultimately obtain r s' where "get_seed E req s = Return r s'"
        "entropy_pool s' = py_drop 0 (entropy_pool s)"
        "length (seed r) = 2 * length (py_take 0 (replicate 32 (0::byte)))"
        using standard_request [OF _ purpose standard free, of E 0] by auto
      then show "\<exists>r s'. get_seed E req s = Return r s'
                  \<and> seed r = [] \<and> entropy_pool s' = entropy_pool s"
        by (auto simp: py_take_def py_drop_def)
    }
    {
      assume neg: "n < 0"
      have "request_size E req = Inr n" using rs neg by simp
      moreover have "\<not> refresh_needed n s"
        using fresh neg by (simp add: refresh_needed_def REFRESH_INTERVAL_def)
      moreover have "n \<le> int (length (entropy_pool s))"
        using neg by simp
      ultimately obtain r s' where "get_seed E req s = Return r s'"
        "entropy_pool s' = py_drop n (entropy_pool s)"
        "length (seed r) = 2 * length (py_take n (replicate 32 (0::byte)))"
        using standard_request [OF _ purpose standard free, of E n] by auto
      then show "\<exists>r s'. get_seed E req s = Return r s'
                  \<and> entropy_pool s'
                      = drop (length (entropy_pool s) - nat (- n)) (entropy_pool s)
                  \<and> length (seed r) = 2 * (32 - nat (- n))"
        using neg by (auto simp: py_take_def py_drop_def)
    }
    {
      assume big: "128 \<le> n \<and> 256 \<le> length (entropy_pool s)"
      have "request_size E req = Inr 128" using rs big by simp
      moreover have "\<not> refresh_needed 128 s"
        using fresh big by (simp add: refresh_needed_def REFRESH_INTERVAL_def)
      moreover have "128 \<le> int (length (entropy_pool s))"
        using big by simp
      ultimately obtain r s' where "get_seed E req s = Return r s'"
        "entropy_pool s' = py_drop 128 (entropy_pool s)"
        using standard_request [OF _ purpose standard free, of E 128] by auto
      then show "\<exists>r s'. get_seed E req s = Return r s'
                  \<and> entropy_pool s' = drop 128 (entropy_pool s)"
        by (auto simp: py_drop_def)
    }
  }
  {
    assume f: "p \<in> set critical_purposes \<and> refresh_in_progress s \<and> n = 0"
    obtain kvs where d: "request_data req = JDict kvs"
      using purpose by (rule data_is_dict)
    obtain ce where ce: "dict_get (request_data req) ''clientEntropy'' JNull = Inr ce"
      using dict_get_dict [of kvs "''clientEntropy''" JNull] d by auto
    have "serve_seed E req 0 s = fast_path E 0 ce s"
      using ce purpose f by (simp add: serve_seed_def)
    moreover have "request_size E req = Inr 0"
      using rs f by simp
    ultimately have "get_seed E req s
        = (case fast_path E 0 ce s of
             Raise e s1 \<Rightarrow> fallback_response E (Some 0) e s1
           | Blocked s1 \<Rightarrow> Blocked s1
           | Return r s1 \<Rightarrow> Return r s1)"
      by (simp add: get_seed_def)
    then show "\<exists>r s'. get_seed E req s = Return r s'
               \<and> seed r = [] \<and> entropy_pool s' = entropy_pool s"
      by (simp add: fast_path_unfold Let_def py_take_def logger_def hex_def split: sum.splits)
  }
qed

theorem size_clamped_from_above_only_witness:
  "request_size demo_env (post [(''size'', JInt 200)]) = Inr 128
   \<and> entropy_pool (final_state
        (get_seed demo_env (post [(''size'', JInt 200)]) (started (replicate 300 0))))
     = replicate 172 0
   \<and> map_option (\<lambda>r. length (seed r))
        (returned (get_seed demo_env (post [(''size'', JInt (- 3))]) (started [1, 2, 3, 4, 5])))
     = Some 58
   \<and> entropy_pool (final_state
        (get_seed demo_env (post [(''size'', JInt (- 3))]) (started [1, 2, 3, 4, 5])))
     = [3, 4, 5]
   \<and> map_option seed
        (returned (get_seed demo_env (post [(''size'', JInt 0)]) (started [1, 2, 3, 4, 5])))
     = Some []
   \<and> map_option seed
        (returned (get_seed demo_env (post [(''size'', JInt 0), (''purpose'', JStr ''login'')])
           ((started [1, 2, 3, 4, 5])\<lparr>refresh_in_progress := True\<rparr>)))
     = Some []"
proof -
  let ?s = "started [1, 2, 3, 4, 5]"
  let ?b = "started (replicate 300 0)"
  let ?f = "(started [1, 2, 3, 4, 5])\<lparr>refresh_in_progress := True\<rparr>"
  have std: "\<not> (JStr ''general'' \<in> set critical_purposes \<and> refresh_in_progress ?s)
            \<and> entropy_lock ?s = None \<and> clock ?s - last_refresh_time ?s \<le> 300"
    "\<not> (JStr ''general'' \<in> set critical_purposes \<and> refresh_in_progress ?b)
            \<and> entropy_lock ?b = None \<and> clock ?b - last_refresh_time ?b \<le> 300"
    by (simp_all add: started_def critical_purposes_def)
  have pools: "entropy_pool ?s = [1, 2, 3, 4, 5]" "entropy_pool ?b = replicate 300 0"
    by (simp_all add: started_def)
  have big: "dict_get (request_data (post [(''size'', JInt 200)])) ''size'' (JInt 32)
          = Inr (JInt 200)"
    "dict_get (request_data (post [(''size'', JInt 200)])) ''purpose'' (JStr ''general'')
          = Inr (JStr ''general'')"
    by (simp_all add: request_data_def post_def dict_get_def)
  have "(128::int) \<le> 200 \<and> 256 \<le> length (entropy_pool ?b)"
    by (simp add: pools)
  then obtain rb sb where a: "request_size demo_env (post [(''size'', JInt 200)]) = Inr (min 200 128)"
    "get_seed demo_env (post [(''size'', JInt 200)]) ?b = Return rb sb"
    "entropy_pool sb = drop 128 (entropy_pool ?b)"
    using size_clamped_from_above_only [OF big, of demo_env ?b] std(2) by blast
  have neg: "dict_get (request_data (post [(''size'', JInt (- 3))])) ''size'' (JInt 32)
          = Inr (JInt (- 3))"
    "dict_get (request_data (post [(''size'', JInt (- 3))])) ''purpose'' (JStr ''general'')
          = Inr (JStr ''general'')"
    by (simp_all add: request_data_def post_def dict_get_def)
  have "(- 3 :: int) < 0"
    by simp
  then obtain rn sn where b: "get_seed demo_env (post [(''size'', JInt (- 3))]) ?s = Return rn sn"
    "entropy_pool sn = drop (length (entropy_pool ?s) - nat (- (- 3))) (entropy_pool ?s)"
    "length (seed rn) = 2 * (32 - nat (- (- 3)))"
    using size_clamped_from_above_only [OF neg, of demo_env ?s] std(1) by blast
  have zero: "dict_get (request_data (post [(''size'', JInt 0)])) ''size'' (JInt 32)
          = Inr (JInt 0)"
    "dict_get (request_data (post [(''size'', JInt 0)])) ''purpose'' (JStr ''general'')
          = Inr (JStr ''general'')"
    by (simp_all add: request_data_def post_def dict_get_def)
  obtain rz sz where c: "get_seed demo_env (post [(''size'', JInt 0)]) ?s = Return rz sz"
    "seed rz = []"
    using size_clamped_from_above_only [OF zero, of demo_env ?s] std(1) by blast
  have fast: "dict_get (request_data (post [(''size'', JInt 0), (''purpose'', JStr ''login'')]))
            ''size'' (JInt 32) = Inr (JInt 0)"
    "dict_get (request_data (post [(''size'', JInt 0), (''purpose'', JStr ''login'')]))
            ''purpose'' (JStr ''general'') = Inr (JStr ''login'')"
    by (simp_all add: request_data_def post_def dict_get_def)
  have "JStr ''login'' \<in> set critical_purposes \<and> refresh_in_progress ?f \<and> (0::int) = 0"
    by (simp add: critical_purposes_def)
  then obtain rf sf where d: "get_seed demo_env
        (post [(''size'', JInt 0), (''purpose'', JStr ''login'')]) ?f = Return rf sf"
    "seed rf = []"
    using size_clamped_from_above_only [OF fast, of demo_env ?f] by blast
  have e: "drop 2 [1, 2, 3, 4, 5 :: byte] = [3, 4, 5]"
    by (simp add: numeral_eq_Suc)
  show ?thesis
    using a b c d by (simp add: pools e)
qed


end
